theory Spec2Isabelle
  imports Complex_Main "HOL-Library.AList"
begin

section \<open>JavaScript values and objects\<close>

text \<open>
  The library passes around untyped JavaScript values (\<open>unknown\<close>, thrown values,
  log payloads). A value is a primitive or an object. An object \<open>JObj e own inh\<close> carries
  \<^item> \<open>e\<close>: whether \<open>value instanceof Error\<close> holds,
  \<^item> \<open>own\<close>: its own string-keyed properties in enumeration order, each with its
    \<open>enumerable\<close> flag (an \<open>Error\<close> instance has \<open>message\<close> and \<open>stack\<close> as own,
    non-enumerable properties),
  \<^item> \<open>inh\<close>: the properties it reaches through its prototype chain (an \<open>Error\<close>
    instance inherits \<open>name\<close>).
  Numbers are exact rationals: \<open>NaN\<close>, infinities and rounding are outside the model.
  Objects used as dictionaries (\<open>Record<string, T>\<close>) are association lists of their
  own properties in insertion order. An assignment \<open>obj[k] = v\<close> to an object made by a
  \<open>{}\<close> literal overwrites in place or appends, except for the key \<open>__proto__\<close>, which
  reaches the setter of \<open>Object.prototype\<close> and stores no property (\<open>js_assign\<close>).
  Properties are writable data properties: accessors and frozen objects are outside the
  model.
\<close>

datatype js_value =
    JUndefined
  | JNull
  | JBool bool
  | JNum rat
  | JStr string
  | JObj bool "(string \<times> bool \<times> js_value) list" "(string \<times> bool \<times> js_value) list"

type_synonym js_record = "(string \<times> js_value) list"

fun js_truthy :: "js_value \<Rightarrow> bool" where
  "js_truthy JUndefined = False"
| "js_truthy JNull = False"
| "js_truthy (JBool b) = b"
| "js_truthy (JNum r) = (r \<noteq> 0)"
| "js_truthy (JStr s) = (s \<noteq> [])"
| "js_truthy (JObj e own inh) = True"

fun js_typeof :: "js_value \<Rightarrow> string" where
  "js_typeof JUndefined = ''undefined''"
| "js_typeof JNull = ''object''"
| "js_typeof (JBool b) = ''boolean''"
| "js_typeof (JNum r) = ''number''"
| "js_typeof (JStr s) = ''string''"
| "js_typeof (JObj e own inh) = ''object''"

fun instanceof_Error :: "js_value \<Rightarrow> bool" where
  "instanceof_Error (JObj e own inh) = e"
| "instanceof_Error v = False"

fun own_props :: "js_value \<Rightarrow> (string \<times> bool \<times> js_value) list" where
  "own_props (JObj e own inh) = own"
| "own_props v = []"

fun inherited_props :: "js_value \<Rightarrow> (string \<times> bool \<times> js_value) list" where
  "inherited_props (JObj e own inh) = inh"
| "inherited_props v = []"

definition hasOwnProperty :: "js_value \<Rightarrow> string \<Rightarrow> bool" where
  "hasOwnProperty obj k = (k \<in> set (map fst (own_props obj)))"

definition js_in :: "string \<Rightarrow> js_value \<Rightarrow> bool" where
  \<comment> \<open>\<open>k in obj\<close>: own or inherited.\<close>
  "js_in k obj = (k \<in> set (map fst (own_props obj)) \<or> k \<in> set (map fst (inherited_props obj)))"

definition js_get :: "js_value \<Rightarrow> string \<Rightarrow> js_value" where
  \<comment> \<open>\<open>obj[k]\<close>: the own property, else the inherited one, else \<open>undefined\<close>.\<close>
  "js_get obj k =
     (case map_of (own_props obj) k of
        Some (en, v) \<Rightarrow> v
      | None \<Rightarrow> (case map_of (inherited_props obj) k of Some (en, v) \<Rightarrow> v | None \<Rightarrow> JUndefined))"

definition for_in_keys :: "js_value \<Rightarrow> string list" where
  \<comment> \<open>\<open>for (const key in obj)\<close>: enumerable own keys, then enumerable inherited keys
      that no own property shadows.\<close>
  "for_in_keys obj =
     map fst (filter (\<lambda>(k, en, v). en) (own_props obj)) @
     map fst (filter (\<lambda>(k, en, v). en \<and> k \<notin> set (map fst (own_props obj))) (inherited_props obj))"

definition wf_object :: "js_value \<Rightarrow> bool" where
  \<comment> \<open>An object has each own key once.\<close>
  "wf_object obj = distinct (map fst (own_props obj))"

definition own_enumerable :: "js_value \<Rightarrow> string \<Rightarrow> bool" where
  \<comment> \<open>\<open>k\<close> is an own enumerable property of the value.\<close>
  "own_enumerable obj k = (k \<in> set (map fst (filter (\<lambda>(k, en, v). en) (own_props obj))))"

definition keys_of :: "('k \<times> 'v) list \<Rightarrow> 'k set" where
  "keys_of r = set (map fst r)"

definition js_assign :: "string \<Rightarrow> 'v \<Rightarrow> (string \<times> 'v) list \<Rightarrow> (string \<times> 'v) list" where
  \<comment> \<open>\<open>obj[k] = v\<close> on an object made by a \<open>{}\<close> literal, as its own properties. For
      \<open>k = __proto__\<close> the inherited setter runs: a primitive \<open>v\<close> is ignored, an object
      or \<open>null\<close> becomes the prototype; no own property is stored either way.\<close>
  "js_assign k v obj = (if k = ''__proto__'' then obj else AList.update k v obj)"

text \<open>
  An optional key of an options object is absent, present with the value \<open>undefined\<close>, or
  present with a value. Object spread copies every present key, also an \<open>undefined\<close> one;
  \<open>??\<close> falls through on \<open>undefined\<close>.
\<close>

datatype 'a field = Absent | Undefined | Present 'a

fun spread_field :: "'a field \<Rightarrow> 'a field \<Rightarrow> 'a field" where
  "spread_field d Absent = d"
| "spread_field d Undefined = Undefined"
| "spread_field d (Present v) = Present v"

fun nullish :: "'a field \<Rightarrow> 'a \<Rightarrow> 'a" where
  "nullish (Present v) d = v"
| "nullish Undefined d = d"
| "nullish Absent d = d"

fun object_key :: "'a field \<Rightarrow> 'a field" where
  \<comment> \<open>The key \<open>k\<close> of an object literal \<open>{ k: o.k }\<close>: present, with the value
      \<open>undefined\<close> when \<open>o\<close> has no such key.\<close>
  "object_key Absent = Undefined"
| "object_key Undefined = Undefined"
| "object_key (Present v) = Present v"

fun supplied :: "'a field \<Rightarrow> bool" where
  "supplied Absent = False"
| "supplied Undefined = True"
| "supplied (Present v) = True"

section \<open>constants.ts\<close>

definition LOG_LEVELS :: "(string \<times> nat) list" where
  "LOG_LEVELS =
     [(''fatal'', 60), (''error'', 50), (''warn'', 40), (''info'', 30), (''debug'', 20), (''trace'', 10)]"

definition DEFAULT_REDACT_PATHS :: "string list" where
  "DEFAULT_REDACT_PATHS =
     [''password'', ''token'', ''secret'', ''credentials'', ''apiKey'', ''authorization'',
      ''cookie'', ''sessionId'']"

definition DEFAULT_LEVEL :: "string option \<Rightarrow> string" where
  \<comment> \<open>\<open>(process.env.LOG_LEVEL as LogLevel) || 'info'\<close>; the argument is
      \<open>process.env.LOG_LEVEL\<close>, \<open>None\<close> when the variable is unset.\<close>
  "DEFAULT_LEVEL env_LOG_LEVEL =
     (case env_LOG_LEVEL of
        None \<Rightarrow> ''info''
      | Some s \<Rightarrow> if s = [] then ''info'' else s)"

definition recognized_level :: "string \<Rightarrow> bool" where
  "recognized_level s = (s \<in> set (map fst LOG_LEVELS))"

section \<open>utils/errors.ts\<close>

definition isError :: "js_value \<Rightarrow> bool" where
  "isError err =
     (instanceof_Error err \<or>
      (js_typeof err = ''object'' \<and> err \<noteq> JNull \<and> js_in ''message'' err))"

definition errorSerializer :: "(js_value \<Rightarrow> string) \<Rightarrow> js_value \<Rightarrow> js_record" where
  \<comment> \<open>The first argument is the platform's \<open>String(value)\<close> conversion.\<close>
  "errorSerializer String_of v =
     (if \<not> isError v then [(''error'', JStr (String_of v))]
      else
        let serialized0 = [(''type'', js_get v ''name''), (''message'', js_get v ''message'')];
            serialized1 =
              (if js_truthy (js_get v ''stack'')
               then AList.update ''stack'' (js_get v ''stack'') serialized0
               else serialized0)
        in fold
             (\<lambda>key serialized.
                if hasOwnProperty v key \<and> key \<notin> set [''name'', ''message'', ''stack'']
                then js_assign key (js_get v key) serialized
                else serialized)
             (for_in_keys v) serialized1)"

section \<open>types.ts and config/defaults.ts: logger options\<close>

record redact_options =
  paths :: "string list"
  remove :: "bool field"
  censor :: "string field"

datatype redact = RedactList "string list" | RedactOptions redact_options

datatype timestamp_option = TimestampBool bool | TimestampFn "unit \<Rightarrow> string"

record formatters =
  fmt_level :: "(string \<Rightarrow> nat \<Rightarrow> js_record) field"
  fmt_bindings :: "(js_record \<Rightarrow> js_record) field"
  fmt_log :: "(js_record \<Rightarrow> js_record) field"

record logger_options =
  lo_level :: "string field"
  lo_redact :: "redact field"
  lo_timestamp :: "timestamp_option field"
  lo_formatters :: "formatters field"
  lo_serializers :: "(string \<times> (js_value \<Rightarrow> js_record)) list field"
  lo_base :: "js_record option field"
  lo_messageKey :: "string field"
  lo_errorKey :: "string field"

definition no_options :: logger_options where
  \<comment> \<open>The \<open>{}\<close> that \<open>createLogger\<close> takes by default.\<close>
  "no_options =
     \<lparr>lo_level = Absent, lo_redact = Absent, lo_timestamp = Absent, lo_formatters = Absent,
      lo_serializers = Absent, lo_base = Absent, lo_messageKey = Absent, lo_errorKey = Absent\<rparr>"

definition defaultOptions :: "string option \<Rightarrow> (js_value \<Rightarrow> string) \<Rightarrow> logger_options" where
  \<comment> \<open>The arguments are \<open>process.env.LOG_LEVEL\<close> and the platform's \<open>String\<close>;
      \<open>base: null\<close> is \<open>Present None\<close>.\<close>
  "defaultOptions env_LOG_LEVEL String_of =
     \<lparr>lo_level = Present (DEFAULT_LEVEL env_LOG_LEVEL),
      lo_redact =
        Present (RedactOptions
          \<lparr>paths = DEFAULT_REDACT_PATHS, remove = Present True, censor = Absent\<rparr>),
      lo_timestamp = Present (TimestampBool True),
      lo_formatters =
        Present \<lparr>fmt_level = Present (\<lambda>label n. [(''level'', JStr label)]),
                 fmt_bindings = Absent, fmt_log = Absent\<rparr>,
      lo_serializers = Present [(''error'', errorSerializer String_of)],
      lo_base = Present None,
      lo_messageKey = Present ''msg'',
      lo_errorKey = Present ''error''\<rparr>"

definition spread_logger_options :: "logger_options \<Rightarrow> logger_options \<Rightarrow> logger_options" where
  \<comment> \<open>\<open>{ ...a, ...b }\<close>: key by key, one level deep.\<close>
  "spread_logger_options a b =
     \<lparr>lo_level = spread_field (lo_level a) (lo_level b),
      lo_redact = spread_field (lo_redact a) (lo_redact b),
      lo_timestamp = spread_field (lo_timestamp a) (lo_timestamp b),
      lo_formatters = spread_field (lo_formatters a) (lo_formatters b),
      lo_serializers = spread_field (lo_serializers a) (lo_serializers b),
      lo_base = spread_field (lo_base a) (lo_base b),
      lo_messageKey = spread_field (lo_messageKey a) (lo_messageKey b),
      lo_errorKey = spread_field (lo_errorKey a) (lo_errorKey b)\<rparr>"

definition mergedOptions ::
  "string option \<Rightarrow> (js_value \<Rightarrow> string) \<Rightarrow> logger_options \<Rightarrow> logger_options" where
  \<comment> \<open>\<open>createLogger\<close>, lines 7 to 10.\<close>
  "mergedOptions env_LOG_LEVEL String_of options =
     spread_logger_options (defaultOptions env_LOG_LEVEL String_of) options"

section \<open>The logging backend\<close>

text \<open>
  A logger handle has an identity, a minimum level and the bindings every entry of it
  carries. The world holds what the library reads from the platform and writes to the
  backend: the next free logger identity, the log calls received so far, the monotonic
  clock \<open>process.hrtime.bigint()\<close> in nanoseconds, \<open>Date.now()\<close> in milliseconds and
  the text of \<open>Math.random().toString(36)\<close>. An entry is emitted when a level method of a
  logger is called; whether the backend then writes it depends on the logger's minimum
  level and is the backend's matter.
\<close>

record logger =
  lg_id :: nat
  lg_level :: string
  lg_bindings :: js_record

record log_call =
  lc_logger :: nat
  lc_level :: string
  lc_bindings :: js_record
  lc_payload :: js_record
  lc_msg :: string

record world =
  w_next_id :: nat
  w_calls :: "log_call list"
  w_hrtime :: int
  w_now :: nat
  w_random36 :: string

definition pino :: "world \<Rightarrow> logger_options \<Rightarrow> logger \<times> world" where
  \<comment> \<open>Modelled from the spec: the backend's constructor (the package \<open>pino\<close>, not part
      of the sources). It makes a fresh handle at the configured minimum level whose
      bindings are the base fields of the options.\<close>
  "pino w opts =
     (\<lparr>lg_id = w_next_id w,
       lg_level = nullish (lo_level opts) ''info'',
       lg_bindings = (case lo_base opts of Present (Some b) \<Rightarrow> b | _ \<Rightarrow> [])\<rparr>,
      w\<lparr>w_next_id := Suc (w_next_id w)\<rparr>)"

definition pino_child :: "world \<Rightarrow> logger \<Rightarrow> js_record \<Rightarrow> logger \<times> world" where
  \<comment> \<open>Modelled from the spec: the backend's \<open>child(bindings)\<close>, not part of the
      sources. It derives a new handle bound to the parent's fields merged with
      \<open>bindings\<close>, later keys overriding earlier ones, and leaves the parent as it is.\<close>
  "pino_child w parent bindings =
     (\<lparr>lg_id = w_next_id w,
       lg_level = lg_level parent,
       lg_bindings = AList.merge (lg_bindings parent) bindings\<rparr>,
      w\<lparr>w_next_id := Suc (w_next_id w)\<rparr>)"

definition pino_log :: "world \<Rightarrow> logger \<Rightarrow> string \<Rightarrow> js_record \<Rightarrow> string \<Rightarrow> world" where
  \<comment> \<open>Modelled from the spec: the backend's level methods \<open>logger.info(obj, msg)\<close>,
      \<open>logger.warn\<close>, \<open>logger.error\<close>, not part of the sources. The call is
      recorded with the handle's bound fields.\<close>
  "pino_log w lg lvl payload msg =
     w\<lparr>w_calls := w_calls w @
        [\<lparr>lc_logger = lg_id lg, lc_level = lvl, lc_bindings = lg_bindings lg,
          lc_payload = payload, lc_msg = msg\<rparr>]\<rparr>"

definition logger_known :: "world \<Rightarrow> logger \<Rightarrow> bool" where
  \<comment> \<open>The handle was made in this world.\<close>
  "logger_known w lg = (lg_id lg < w_next_id w)"

section \<open>utils/context.ts and logger.ts\<close>

definition digit_char :: "nat \<Rightarrow> char" where
  \<comment> \<open>Used below 10 only.\<close>
  "digit_char d = ''0123456789'' ! d"

fun decimal :: "nat \<Rightarrow> string" where
  \<comment> \<open>The text of a non-negative integer in a template literal.\<close>
  "decimal n =
     (if n < 10 then [digit_char n] else decimal (n div 10) @ [digit_char (n mod 10)])"

declare decimal.simps [simp del]

definition substring :: "string \<Rightarrow> nat \<Rightarrow> nat \<Rightarrow> string" where
  \<comment> \<open>\<open>s.substring(a, b)\<close>: both indices clamped to the length, swapped when
      \<open>a > b\<close>.\<close>
  "substring s a b =
     (let a' = min a (length s); b' = min b (length s)
      in take (max a' b' - min a' b') (drop (min a' b') s))"

definition createContextLogger :: "world \<Rightarrow> logger \<Rightarrow> js_record \<Rightarrow> logger \<times> world" where
  "createContextLogger w lg ctx = pino_child w lg ctx"

definition generateRequestId :: "nat \<Rightarrow> string \<Rightarrow> string" where
  \<comment> \<open>The arguments are \<open>Date.now()\<close> and \<open>Math.random().toString(36)\<close>.\<close>
  "generateRequestId now random36 = ''req_'' @ decimal now @ ''_'' @ substring random36 2 15"

definition withRequestContext :: "world \<Rightarrow> logger \<Rightarrow> string option \<Rightarrow> logger \<times> world" where
  "withRequestContext w lg requestId =
     (let generatedRequestId =
            (case requestId of
               None \<Rightarrow> generateRequestId (w_now w) (w_random36 w)
             | Some r \<Rightarrow> if r = [] then generateRequestId (w_now w) (w_random36 w) else r)
      in createContextLogger w lg [(''requestId'', JStr generatedRequestId)])"

definition withUserContext :: "world \<Rightarrow> logger \<Rightarrow> string \<Rightarrow> logger \<times> world" where
  "withUserContext w lg userId = createContextLogger w lg [(''userId'', JStr userId)]"

definition withTraceContext :: "world \<Rightarrow> logger \<Rightarrow> string \<Rightarrow> logger \<times> world" where
  "withTraceContext w lg traceId = createContextLogger w lg [(''traceId'', JStr traceId)]"

definition withContext :: "world \<Rightarrow> logger \<Rightarrow> js_record \<Rightarrow> logger \<times> world" where
  \<comment> \<open>The method \<open>createLogger\<close> adds: \<open>this\<close> is the logger it is called on.\<close>
  "withContext w this ctx = createContextLogger w this ctx"

definition createLogger ::
  "string option \<Rightarrow> (js_value \<Rightarrow> string) \<Rightarrow> world \<Rightarrow> logger_options \<Rightarrow> logger \<times> world" where
  "createLogger env_LOG_LEVEL String_of w options =
     pino w (mergedOptions env_LOG_LEVEL String_of options)"

definition is_base36 :: "char \<Rightarrow> bool" where
  "is_base36 ch = (ch \<in> set ''0123456789abcdefghijklmnopqrstuvwxyz'')"

definition is_digit :: "char \<Rightarrow> bool" where
  "is_digit ch = (ch \<in> set ''0123456789'')"

definition digit_val :: "char \<Rightarrow> nat" where
  "digit_val ch = (case map_of (zip ''0123456789'' [0 ..< 10]) ch of Some d \<Rightarrow> d | None \<Rightarrow> 0)"

definition decimal_val :: "string \<Rightarrow> nat" where
  \<comment> \<open>The number a string of decimal digits denotes.\<close>
  "decimal_val s = foldl (\<lambda>a ch. 10 * a + digit_val ch) 0 s"

definition radix36_fraction :: "string \<Rightarrow> bool" where
  \<comment> \<open>The texts \<open>x.toString(36)\<close> has for \<open>0 \<le> x < 1\<close>: \<open>0\<close>, or \<open>0.\<close> and at least
      one base-36 digit.\<close>
  "radix36_fraction s =
     (s = ''0'' \<or> (take 2 s = ''0.'' \<and> drop 2 s \<noteq> [] \<and> list_all is_base36 (drop 2 s)))"

section \<open>middleware/hono: utils.ts\<close>

definition lower_char :: "char \<Rightarrow> char" where
  "lower_char ch =
     (case map_of (zip ''ABCDEFGHIJKLMNOPQRSTUVWXYZ'' ''abcdefghijklmnopqrstuvwxyz'') ch of
        Some d \<Rightarrow> d
      | None \<Rightarrow> ch)"

definition toLowerCase :: "string \<Rightarrow> string" where
  \<comment> \<open>On ASCII, the alphabet of header names.\<close>
  "toLowerCase s = map lower_char s"

definition formatDuration :: "int \<Rightarrow> world \<Rightarrow> rat" where
  \<comment> \<open>Nanoseconds since \<open>startTime\<close>, as milliseconds.\<close>
  "formatDuration startTime w = of_int (w_hrtime w - startTime) / 1000000"

definition getHeaders :: "(string \<times> string) list \<Rightarrow> string list \<Rightarrow> (string \<times> string) list" where
  \<comment> \<open>\<open>headers\<close> is \<open>Object.entries(headers)\<close>, in enumeration order.\<close>
  "getHeaders headers redactHeaders =
     fold
       (\<lambda>(key, v) sanitizedHeaders.
          let lowerKey = toLowerCase key
          in if lowerKey \<in> set redactHeaders
             then js_assign lowerKey ''[REDACTED]'' sanitizedHeaders
             else js_assign lowerKey v sanitizedHeaders)
       headers []"

definition TypeError :: "string \<Rightarrow> js_value" where
  "TypeError msg = JObj True [(''message'', False, JStr msg)] [(''name'', False, JStr ''TypeError'')]"

type_synonym url_parser = "string \<Rightarrow> js_value + (string \<times> string) list"

definition getQueryParams :: "url_parser \<Rightarrow> string \<Rightarrow> js_value + (string \<times> string) list" where
  \<comment> \<open>The first argument is the platform's \<open>new URL(url).searchParams.entries()\<close>:
      \<open>Inl e\<close> when the constructor throws \<open>e\<close> (a \<open>TypeError\<close>, for a text that is
      not an absolute URL), else the decoded pairs of the query string in order.\<close>
  "getQueryParams URL_entries url =
     (case URL_entries url of
        Inl e \<Rightarrow> Inl e
      | Inr entries \<Rightarrow> Inr (fold (\<lambda>(key, v) params. js_assign key v params) entries []))"

definition redacted_pairs :: "(string \<times> string) list \<Rightarrow> string list \<Rightarrow> (string \<times> string) list" where
  \<comment> \<open>What each entry of a header mapping asks to be assigned: the lower-cased key
      with the marker or the value.\<close>
  "redacted_pairs headers redactHeaders =
     map (\<lambda>(key, v). (toLowerCase key,
            if toLowerCase key \<in> set redactHeaders then ''[REDACTED]'' else v)) headers"

section \<open>middleware/hono: types.ts, config.ts and index.ts\<close>

text \<open>
  The request context of the framework is a record of what the middleware reads and
  writes: the request's method, URL, path and headers; the status of the response the
  context holds, which \<open>c.res.status\<close> reads (\<open>None\<close> when unset); the status that
  \<open>c.status(n)\<close> sets for a response the context builds later, which is another cell
  and leaves the held response as it is; and the variable \<open>logger\<close>. The configured callbacks are functions of the context that return: a
  callback that throws is outside the model.
\<close>

record hono_ctx =
  req_method :: string
  req_url :: string
  req_path :: string
  req_header :: "(string \<times> string) list"
  res_status :: "nat option"
  ctx_status :: "nat option"
  var_logger :: "logger option"

datatype include_headers = IncludeBool bool | IncludeList "string list"

record hono_options =
  ho_logger :: "logger field"
  ho_level :: "string field"
  ho_includeHeaders :: "include_headers field"
  ho_redactHeaders :: "string list field"
  ho_includeQueryParams :: "bool field"
  ho_slowRequestThreshold :: "rat field"
  ho_getUserContext :: "(hono_ctx \<Rightarrow> js_record) field"
  ho_formatRequest :: "(hono_ctx \<Rightarrow> js_record) field"
  ho_formatResponse :: "(hono_ctx \<Rightarrow> js_record) field"
  ho_formatError :: "(js_value \<Rightarrow> hono_ctx \<Rightarrow> js_record) field"

definition hono_no_options :: hono_options where
  "hono_no_options =
     \<lparr>ho_logger = Absent, ho_level = Absent, ho_includeHeaders = Absent,
      ho_redactHeaders = Absent, ho_includeQueryParams = Absent,
      ho_slowRequestThreshold = Absent, ho_getUserContext = Absent,
      ho_formatRequest = Absent, ho_formatResponse = Absent, ho_formatError = Absent\<rparr>"

definition hono_defaultOptions :: hono_options where
  \<comment> \<open>\<open>defaultOptions\<close> of the middleware's \<open>config.ts\<close>.\<close>
  "hono_defaultOptions =
     hono_no_options
       \<lparr>ho_includeHeaders := Present (IncludeBool False),
        ho_includeQueryParams := Present False,
        ho_slowRequestThreshold := Present 1000,
        ho_redactHeaders :=
          Present [''authorization'', ''cookie'', ''set-cookie'', ''x-api-key'', ''x-auth-token'']\<rparr>"

definition spread_hono_options :: "hono_options \<Rightarrow> hono_options \<Rightarrow> hono_options" where
  "spread_hono_options a b =
     \<lparr>ho_logger = spread_field (ho_logger a) (ho_logger b),
      ho_level = spread_field (ho_level a) (ho_level b),
      ho_includeHeaders = spread_field (ho_includeHeaders a) (ho_includeHeaders b),
      ho_redactHeaders = spread_field (ho_redactHeaders a) (ho_redactHeaders b),
      ho_includeQueryParams = spread_field (ho_includeQueryParams a) (ho_includeQueryParams b),
      ho_slowRequestThreshold = spread_field (ho_slowRequestThreshold a) (ho_slowRequestThreshold b),
      ho_getUserContext = spread_field (ho_getUserContext a) (ho_getUserContext b),
      ho_formatRequest = spread_field (ho_formatRequest a) (ho_formatRequest b),
      ho_formatResponse = spread_field (ho_formatResponse a) (ho_formatResponse b),
      ho_formatError = spread_field (ho_formatError a) (ho_formatError b)\<rparr>"

definition middleware_config :: "hono_options \<Rightarrow> hono_options" where
  \<comment> \<open>Line 10: \<open>{ ...defaultOptions, ...options }\<close>.\<close>
  "middleware_config options = spread_hono_options hono_defaultOptions options"

definition middleware_logger ::
  "string option \<Rightarrow> (js_value \<Rightarrow> string) \<Rightarrow> hono_options \<Rightarrow> world \<Rightarrow> logger \<times> world" where
  \<comment> \<open>Line 11: \<open>options.logger ?? createLogger({ level: config.level })\<close>.\<close>
  "middleware_logger env_LOG_LEVEL String_of options w =
     (case ho_logger options of
        Present lg \<Rightarrow> (lg, w)
      | _ \<Rightarrow> createLogger env_LOG_LEVEL String_of w
               (no_options\<lparr>lo_level := object_key (ho_level (middleware_config options))\<rparr>))"

fun include_truthy :: "include_headers field \<Rightarrow> bool" where
  \<comment> \<open>\<open>if (config.includeHeaders)\<close>: an array is truthy, also an empty one.\<close>
  "include_truthy (Present (IncludeBool b)) = b"
| "include_truthy (Present (IncludeList l)) = True"
| "include_truthy v = False"

fun bool_truthy :: "bool field \<Rightarrow> bool" where
  "bool_truthy (Present b) = b"
| "bool_truthy v = False"

definition Object_fromEntries :: "('k \<times> 'v) list \<Rightarrow> ('k \<times> 'v) list" where
  \<comment> \<open>\<open>Object.fromEntries\<close> defines each property, \<open>__proto__\<close> too, as an own one.\<close>
  "Object_fromEntries entries = fold (\<lambda>(k, v) obj. AList.update k v obj) entries []"

definition Object_assign :: "(string \<times> 'v) list \<Rightarrow> (string \<times> 'v) list \<Rightarrow> (string \<times> 'v) list" where
  \<comment> \<open>\<open>Object.assign(target, source)\<close>: each own enumerable property of the source is
      assigned to the target.\<close>
  "Object_assign target source = fold (\<lambda>(k, v) obj. js_assign k v obj) source target"

definition record_value :: "(string \<times> string) list \<Rightarrow> js_value" where
  \<comment> \<open>A \<open>Record<string, string>\<close> as a value: a plain object of enumerable
      properties.\<close>
  "record_value r = JObj False (map (\<lambda>(k, v). (k, True, JStr v)) r) []"

definition status_value :: "nat option \<Rightarrow> js_value" where
  "status_value st = (case st of None \<Rightarrow> JUndefined | Some n \<Rightarrow> JNum (of_nat n))"

definition request_headers :: "hono_options \<Rightarrow> hono_ctx \<Rightarrow> (string \<times> string) list" where
  \<comment> \<open>Lines 26 to 46: what \<open>logContext.headers\<close> is set to.\<close>
  "request_headers config c =
     (let allowedHeaders =
            (case ho_includeHeaders config of Present (IncludeList l) \<Rightarrow> Some l | _ \<Rightarrow> None);
          headers =
            getHeaders
              (Object_fromEntries (map (\<lambda>(key, v). (toLowerCase key, v)) (req_header c)))
              (nullish (ho_redactHeaders config) [])
      in case allowedHeaders of
           Some allowed \<Rightarrow> Object_fromEntries (filter (\<lambda>(key, v). key \<in> set allowed) headers)
         | None \<Rightarrow> headers)"

definition request_logContext :: "url_parser \<Rightarrow> hono_options \<Rightarrow> hono_ctx \<Rightarrow> js_value + js_record" where
  \<comment> \<open>Lines 18 to 57; \<open>Inl\<close> is what \<open>getQueryParams\<close> throws.\<close>
  "request_logContext URL_entries config c =
     (let logContext0 =
            [(''method'', JStr (req_method c)), (''url'', JStr (req_url c)),
             (''path'', JStr (req_path c))];
          logContext1 =
            (if include_truthy (ho_includeHeaders config)
             then AList.update ''headers'' (record_value (request_headers config c)) logContext0
             else logContext0)
      in case (if bool_truthy (ho_includeQueryParams config)
               then map_sum id (\<lambda>q. AList.update ''query'' (record_value q) logContext1)
                      (getQueryParams URL_entries (req_url c))
               else Inr logContext1) of
           Inl e \<Rightarrow> Inl e
         | Inr logContext2 \<Rightarrow>
             Inr (case ho_getUserContext config of
                    Present f \<Rightarrow> Object_assign logContext2 (f c)
                  | _ \<Rightarrow> logContext2))"

text \<open>
  The downstream continuation \<open>next\<close> is a function of the context it is given: it
  returns or throws a value, makes log calls of its own, takes some time and leaves a
  response status.
\<close>

record downstream =
  d_throws :: "js_value option"
  d_calls :: "log_call list"
  d_elapsed :: nat
  d_status :: "nat option"

definition await_next :: "downstream \<Rightarrow> hono_ctx \<Rightarrow> world \<Rightarrow> hono_ctx \<times> world" where
  "await_next d c w =
     (c\<lparr>res_status := d_status d\<rparr>,
      w\<lparr>w_calls := w_calls w @ d_calls d, w_hrtime := w_hrtime w + int (d_elapsed d)\<rparr>)"

definition slow_threshold :: "hono_options \<Rightarrow> rat" where
  \<comment> \<open>Line 78.\<close>
  "slow_threshold config =
     nullish (ho_slowRequestThreshold config)
       (nullish (ho_slowRequestThreshold hono_defaultOptions) 1000)"

definition on_completed ::
  "hono_options \<Rightarrow> logger \<Rightarrow> int \<Rightarrow> hono_ctx \<Rightarrow> world \<Rightarrow> world" where
  \<comment> \<open>Lines 75 to 98: after \<open>next\<close> has returned.\<close>
  "on_completed config requestLogger startTime c w =
     (let duration = formatDuration startTime w;
          threshold = slow_threshold config;
          w1 = (if duration > threshold
                then pino_log w requestLogger ''warn''
                       [(''duration'', JNum duration), (''threshold'', JNum threshold)]
                       ''Slow request detected''
                else w);
          responseContext = [(''status'', status_value (res_status c)), (''duration'', JNum duration)];
          finalResponseContext =
            (case ho_formatResponse config of Present f \<Rightarrow> f c | _ \<Rightarrow> responseContext)
      in pino_log w1 requestLogger ''info'' finalResponseContext ''Request completed'')"

definition status_unset_or_below_400 :: "nat option \<Rightarrow> bool" where
  \<comment> \<open>\<open>!c.res.status || c.res.status < 400\<close>.\<close>
  "status_unset_or_below_400 st = (case st of None \<Rightarrow> True | Some n \<Rightarrow> n = 0 \<or> n < 400)"

definition on_failed ::
  "hono_options \<Rightarrow> logger \<Rightarrow> int \<Rightarrow> js_value \<Rightarrow> hono_ctx \<Rightarrow> world \<Rightarrow> hono_ctx \<times> world" where
  \<comment> \<open>Lines 101 to 123: the \<open>catch\<close> block up to the rethrow.\<close>
  "on_failed config requestLogger startTime error c w =
     (let duration = formatDuration startTime w;
          c1 = (if status_unset_or_below_400 (res_status c) then c\<lparr>ctx_status := Some 500\<rparr> else c);
          errorContext =
            [(''err'', error), (''duration'', JNum duration),
             (''status'', status_value (res_status c1)),
             (''method'', JStr (req_method c1)), (''path'', JStr (req_path c1))];
          finalErrorContext =
            (case ho_formatError config of Present f \<Rightarrow> f error c1 | _ \<Rightarrow> errorContext)
      in (c1, pino_log w requestLogger ''error'' finalErrorContext ''Request failed''))"

definition handle_request ::
  "url_parser \<Rightarrow> hono_options \<Rightarrow> logger \<Rightarrow> hono_ctx \<Rightarrow> (hono_ctx \<Rightarrow> downstream) \<Rightarrow> world
     \<Rightarrow> (js_value + unit) \<times> hono_ctx \<times> world" where
  \<comment> \<open>Lines 13 to 128: the handler. \<open>Inl e\<close>: it throws \<open>e\<close>.\<close>
  "handle_request URL_entries config lg c next w =
     (let (requestLogger, w1) = withRequestContext w lg None;
          startTime = w_hrtime w1
      in case request_logContext URL_entries config c of
           Inl e \<Rightarrow> (Inl e, c, w1)
         | Inr logContext \<Rightarrow>
             (let requestContext =
                    (case ho_formatRequest config of Present f \<Rightarrow> f c | _ \<Rightarrow> logContext);
                  w2 = pino_log w1 requestLogger ''info'' requestContext ''Incoming request'';
                  c1 = c\<lparr>var_logger := Some requestLogger\<rparr>;
                  d = next c1;
                  (c2, w3) = await_next d c1 w2
              in (case d_throws d of
                    None \<Rightarrow> (Inr (), c2, on_completed config requestLogger startTime c2 w3)
                  | Some error \<Rightarrow>
                      (let (c3, w4) = on_failed config requestLogger startTime error c2 w3
                       in (Inl error, c3, w4)))))"

definition observabilityMiddleware ::
  "string option \<Rightarrow> (js_value \<Rightarrow> string) \<Rightarrow> url_parser \<Rightarrow> hono_options \<Rightarrow> world
     \<Rightarrow> (hono_ctx \<Rightarrow> (hono_ctx \<Rightarrow> downstream) \<Rightarrow> world \<Rightarrow> (js_value + unit) \<times> hono_ctx \<times> world)
        \<times> world" where
  \<comment> \<open>Lines 7 to 129: the configuration is merged and the logger chosen once; the
      handler is returned.\<close>
  "observabilityMiddleware env_LOG_LEVEL String_of URL_entries options w =
     (let config = middleware_config options;
          (lg, w1) = middleware_logger env_LOG_LEVEL String_of options w
      in (handle_request URL_entries config lg, w1))"

definition request_wellformed :: "url_parser \<Rightarrow> hono_options \<Rightarrow> hono_ctx \<Rightarrow> bool" where
  \<comment> \<open>The framework's request carries an absolute URL: where the handler parses it
      (\<open>includeQueryParams\<close>), the platform accepts it.\<close>
  "request_wellformed URL_entries config c =
     (bool_truthy (ho_includeQueryParams config) \<longrightarrow> \<not> isl (URL_entries (req_url c)))"

definition terminal_call :: "log_call \<Rightarrow> bool" where
  "terminal_call e = (lc_msg e = ''Request completed'' \<or> lc_msg e = ''Request failed'')"

section \<open>A request to run the handler on\<close>

text \<open>
  The request of the middleware's tests, \<open>GET /users?x=1\<close>, with a parser that accepts
  its URL, a logger, a world, and two downstream handlers: one that answers, one that
  throws.
\<close>

definition example_URL_entries :: url_parser where
  "example_URL_entries u =
     (if u = ''http://localhost/users?x=1'' then Inr [(''x'', ''1'')]
      else Inl (TypeError ''Invalid URL''))"

definition example_request :: hono_ctx where
  "example_request =
     \<lparr>req_method = ''GET'', req_url = ''http://localhost/users?x=1'', req_path = ''/users'',
      req_header = [(''Authorization'', ''Bearer x''), (''X-Test'', ''value'')],
      res_status = None, ctx_status = None, var_logger = None\<rparr>"

definition example_config :: hono_options where
  \<comment> \<open>Headers and query parameters logged, \<open>authorization\<close> redacted.\<close>
  "example_config =
     middleware_config
       (hono_no_options
          \<lparr>ho_includeHeaders := Present (IncludeBool True),
           ho_redactHeaders := Present [''authorization''],
           ho_includeQueryParams := Present True\<rparr>)"

definition example_config_slow :: hono_options where
  \<comment> \<open>The same with a threshold of 1 ms.\<close>
  "example_config_slow =
     middleware_config
       (hono_no_options
          \<lparr>ho_includeHeaders := Present (IncludeBool True),
           ho_redactHeaders := Present [''authorization''],
           ho_includeQueryParams := Present True,
           ho_slowRequestThreshold := Present 1\<rparr>)"

definition example_logger :: logger where
  "example_logger = \<lparr>lg_id = 0, lg_level = ''info'', lg_bindings = []\<rparr>"

definition example_world :: world where
  "example_world =
     \<lparr>w_next_id = 1, w_calls = [], w_hrtime = 5000, w_now = 1730000000123,
      w_random36 = ''0.4fzyo82mvyr''\<rparr>"

definition example_error :: js_value where
  "example_error =
     JObj True [(''message'', False, JStr ''Test error'')] [(''name'', False, JStr ''Error'')]"

definition example_next_ok :: "hono_ctx \<Rightarrow> downstream" where
  \<comment> \<open>A handler that takes 10 ms and answers 200.\<close>
  "example_next_ok c =
     \<lparr>d_throws = None, d_calls = [], d_elapsed = 10000000, d_status = Some 200\<rparr>"

definition example_next_throws :: "hono_ctx \<Rightarrow> downstream" where
  \<comment> \<open>A handler that throws after 2 ms with the default status 200 in place.\<close>
  "example_next_throws c =
     \<lparr>d_throws = Some example_error, d_calls = [], d_elapsed = 2000000, d_status = Some 200\<rparr>"

section \<open>Object spread and dictionaries written by a loop\<close>

lemma spread_field_supplied: "spread_field d x = (if supplied x then x else d)"
  by (cases x) simp_all

lemma map_of_fold_update:
  "map_of (fold (\<lambda>(k, v) obj. AList.update k v obj) ps acc) = map_of acc ++ map_of (rev ps)"
proof (induction ps arbitrary: acc)
  case Nil
  show ?case by simp
next
  case (Cons p ps)
  obtain k v where p: "p = (k, v)" by (cases p)
  have "map_of (fold (\<lambda>(k, v) obj. AList.update k v obj) (p # ps) acc)
        = map_of (AList.update k v acc) ++ map_of (rev ps)"
    using Cons.IH [of "AList.update k v acc"] by (simp add: p)
  also have "\<dots> = map_of acc ++ map_of (rev (p # ps))"
    by (rule ext) (simp add: p update_conv' map_add_def split: option.splits)
  finally show ?case .
qed

lemma distinct_fold_update:
  "distinct (map fst acc) \<Longrightarrow>
   distinct (map fst (fold (\<lambda>(k, v) obj. AList.update k v obj) ps acc))"
  by (induction ps arbitrary: acc) (auto simp: distinct_update)

lemma keys_fold_update:
  "keys_of (fold (\<lambda>(k, v) obj. AList.update k v obj) ps acc) = keys_of acc \<union> keys_of ps"
proof -
  have "dom (map_of (fold (\<lambda>(k, v) obj. AList.update k v obj) ps acc))
        = dom (map_of acc) \<union> dom (map_of (rev ps))"
    by (simp add: map_of_fold_update Un_commute)
  then show ?thesis
    by (simp add: keys_of_def dom_map_of_conv_image_fst)
qed

lemma map_of_rev_last:
  "k \<notin> keys_of ps2 \<Longrightarrow> map_of (rev (ps1 @ (k, v) # ps2)) k = Some v"
  by (simp add: keys_of_def map_add_def map_of_eq_None_iff [THEN iffD2] split: option.splits)

lemma keys_of_Nil: "keys_of [] = {}"
  by (simp add: keys_of_def)

lemma keys_ofI: "(k, v) \<in> set ps \<Longrightarrow> k \<in> keys_of ps"
  by (force simp: keys_of_def)

lemma map_of_rev_all_same:
  assumes "k \<in> keys_of ps" and "\<forall>(k', v') \<in> set ps. k' = k \<longrightarrow> v' = x"
  shows "map_of (rev ps) k = Some x"
proof -
  have "k \<in> fst ` set (rev ps)" using assms(1) by (simp add: keys_of_def)
  then obtain y where y: "map_of (rev ps) k = Some y"
    by (metis domD dom_map_of_conv_image_fst)
  then have "(k, y) \<in> set ps" by (auto dest: map_of_SomeD)
  with assms(2) have "y = x" by auto
  with y show ?thesis by simp
qed

lemma fold_js_assign:
  "fold (\<lambda>(k, v) obj. js_assign k v obj) ps acc
     = fold (\<lambda>(k, v) obj. AList.update k v obj) (filter (\<lambda>(k, v). k \<noteq> ''__proto__'') ps) acc"
  by (induction ps arbitrary: acc) (auto simp: js_assign_def)

lemma keys_filter_key: "keys_of (filter (\<lambda>(k, v). k \<noteq> p) ps) = keys_of ps - {p}"
  by (induction ps) (auto simp: keys_of_def)

lemma map_of_rev_filter_key:
  "k \<noteq> p \<Longrightarrow> map_of (rev (filter (\<lambda>(k', v). k' \<noteq> p) ps)) k = map_of (rev ps) k"
  by (induction ps) (auto simp: map_add_def split: option.splits)

lemma map_of_fold_js_assign:
  "k \<noteq> ''__proto__'' \<Longrightarrow>
   map_of (fold (\<lambda>(k, v) obj. js_assign k v obj) ps []) k = map_of (rev ps) k"
  by (simp add: fold_js_assign map_of_fold_update map_of_rev_filter_key)

lemma keys_fold_js_assign:
  "keys_of (fold (\<lambda>(k, v) obj. js_assign k v obj) ps []) = keys_of ps - {''__proto__''}"
  by (simp add: fold_js_assign keys_fold_update keys_of_Nil keys_filter_key)

lemma distinct_fold_js_assign:
  "distinct (map fst (fold (\<lambda>(k, v) obj. js_assign k v obj) ps []))"
  by (simp add: fold_js_assign distinct_fold_update)

section \<open>Header redaction\<close>

lemma getHeaders_fold:
  "getHeaders hs D = fold (\<lambda>(k, v) obj. js_assign k v obj) (redacted_pairs hs D) []"
proof -
  have "fold (\<lambda>(key, v) sanitizedHeaders.
          let lowerKey = toLowerCase key
          in if lowerKey \<in> set D
             then js_assign lowerKey ''[REDACTED]'' sanitizedHeaders
             else js_assign lowerKey v sanitizedHeaders) hs acc
        = fold (\<lambda>(k, v) obj. js_assign k v obj) (redacted_pairs hs D) acc" for acc
    by (induction hs arbitrary: acc) (auto simp: redacted_pairs_def Let_def)
  then show ?thesis by (simp add: getHeaders_def)
qed

lemma keys_redacted_pairs: "keys_of (redacted_pairs hs D) = toLowerCase ` keys_of hs"
  by (auto simp: redacted_pairs_def keys_of_def image_iff split: prod.splits) force+

text \<open>
  Claim C3, as the code has it. For a header mapping \<open>H\<close> (its entries in enumeration
  order, each key once) and a deny-list \<open>D\<close>, \<open>getHeaders\<close> returns a mapping whose key
  set is the lower-cased key set of \<open>H\<close> without \<open>__proto__\<close>, a key the assignment never
  stores. Every key of \<open>H\<close> whose lower-cased form is in \<open>D\<close> (and is not \<open>__proto__\<close>)
  maps, under that form, to \<open>[REDACTED]\<close>. Every other key (lower-cased form not
  \<open>__proto__\<close>) maps to its own value when no other key of \<open>H\<close> has the same lower-cased
  form; among keys that share a lower-cased form outside \<open>D\<close>, the last one in
  enumeration order gives the value. The input is an argument of a pure function and is
  not changed.
\<close>

theorem getHeaders_redaction:
  assumes "distinct (map fst H)"
  shows "keys_of (getHeaders H D) = toLowerCase ` keys_of H - {''__proto__''} \<and>
         distinct (map fst (getHeaders H D)) \<and>
         (\<forall>(k, v) \<in> set H. toLowerCase k \<in> set D \<longrightarrow> toLowerCase k \<noteq> ''__proto__'' \<longrightarrow>
            map_of (getHeaders H D) (toLowerCase k) = Some ''[REDACTED]'') \<and>
         (\<forall>(k, v) \<in> set H. toLowerCase k \<notin> set D \<longrightarrow> toLowerCase k \<noteq> ''__proto__'' \<longrightarrow>
            (\<forall>k' \<in> keys_of H. toLowerCase k' = toLowerCase k \<longrightarrow> k' = k) \<longrightarrow>
            map_of (getHeaders H D) (toLowerCase k) = Some v) \<and>
         (\<forall>H1 k v H2. H = H1 @ (k, v) # H2 \<longrightarrow> toLowerCase k \<notin> set D \<longrightarrow>
            toLowerCase k \<noteq> ''__proto__'' \<longrightarrow>
            toLowerCase k \<notin> toLowerCase ` keys_of H2 \<longrightarrow>
            map_of (getHeaders H D) (toLowerCase k) = Some v) \<and>
         map_of (getHeaders H D) ''__proto__'' = None"
proof (intro conjI)
  let ?ps = "redacted_pairs H D"
  have m: "map_of (getHeaders H D) k = map_of (rev ?ps) k" if "k \<noteq> ''__proto__''" for k
    using that by (simp add: getHeaders_fold map_of_fold_js_assign)
  show ks: "keys_of (getHeaders H D) = toLowerCase ` keys_of H - {''__proto__''}"
    by (simp add: getHeaders_fold keys_fold_js_assign keys_redacted_pairs)
  show "distinct (map fst (getHeaders H D))"
    by (simp add: getHeaders_fold distinct_fold_js_assign)
  show "\<forall>(k, v) \<in> set H. toLowerCase k \<in> set D \<longrightarrow> toLowerCase k \<noteq> ''__proto__'' \<longrightarrow>
          map_of (getHeaders H D) (toLowerCase k) = Some ''[REDACTED]''"
  proof (clarify)
    fix k v assume kv: "(k, v) \<in> set H" and d: "toLowerCase k \<in> set D"
      and ne: "toLowerCase k \<noteq> ''__proto__''"
    have "toLowerCase k \<in> keys_of ?ps"
      using kv by (auto simp: keys_redacted_pairs intro: keys_ofI)
    moreover have "\<forall>(k', v') \<in> set ?ps. k' = toLowerCase k \<longrightarrow> v' = ''[REDACTED]''"
      using d by (auto simp: redacted_pairs_def)
    ultimately show "map_of (getHeaders H D) (toLowerCase k) = Some ''[REDACTED]''"
      unfolding m [OF ne] by (rule map_of_rev_all_same)
  qed
  show "\<forall>(k, v) \<in> set H. toLowerCase k \<notin> set D \<longrightarrow> toLowerCase k \<noteq> ''__proto__'' \<longrightarrow>
          (\<forall>k' \<in> keys_of H. toLowerCase k' = toLowerCase k \<longrightarrow> k' = k) \<longrightarrow>
          map_of (getHeaders H D) (toLowerCase k) = Some v"
  proof (clarify)
    fix k v assume kv: "(k, v) \<in> set H" and d: "toLowerCase k \<notin> set D"
      and ne: "toLowerCase k \<noteq> ''__proto__''"
      and u: "\<forall>k' \<in> keys_of H. toLowerCase k' = toLowerCase k \<longrightarrow> k' = k"
    have "toLowerCase k \<in> keys_of ?ps"
      using kv by (auto simp: keys_redacted_pairs intro: keys_ofI)
    moreover have "\<forall>(k', v') \<in> set ?ps. k' = toLowerCase k \<longrightarrow> v' = v"
    proof (clarify)
      fix v' assume "(toLowerCase k, v') \<in> set ?ps"
      then obtain k0 v0 where in0: "(k0, v0) \<in> set H" and lk: "toLowerCase k0 = toLowerCase k"
        and v': "v' = (if toLowerCase k0 \<in> set D then ''[REDACTED]'' else v0)"
        by (auto simp: redacted_pairs_def)
      from in0 have "k0 \<in> keys_of H" by (rule keys_ofI)
      with u lk have "k0 = k" by blast
      with in0 kv assms have "v0 = v" by (meson eq_key_imp_eq_value)
      with v' lk d show "v' = v" by simp
    qed
    ultimately show "map_of (getHeaders H D) (toLowerCase k) = Some v"
      unfolding m [OF ne] by (rule map_of_rev_all_same)
  qed
  show "\<forall>H1 k v H2. H = H1 @ (k, v) # H2 \<longrightarrow> toLowerCase k \<notin> set D \<longrightarrow>
          toLowerCase k \<noteq> ''__proto__'' \<longrightarrow>
          toLowerCase k \<notin> toLowerCase ` keys_of H2 \<longrightarrow>
          map_of (getHeaders H D) (toLowerCase k) = Some v"
  proof (intro allI impI)
    fix H1 k v H2
    assume H: "H = H1 @ (k, v) # H2" and d: "toLowerCase k \<notin> set D"
      and ne: "toLowerCase k \<noteq> ''__proto__''"
      and l: "toLowerCase k \<notin> toLowerCase ` keys_of H2"
    have e: "?ps = redacted_pairs H1 D @ (toLowerCase k, v) # redacted_pairs H2 D"
      using d by (simp add: H redacted_pairs_def)
    have n: "toLowerCase k \<notin> keys_of (redacted_pairs H2 D)"
      using l by (simp add: keys_redacted_pairs)
    show "map_of (getHeaders H D) (toLowerCase k) = Some v"
      unfolding m [OF ne] e by (rule map_of_rev_last [OF n])
  qed
  have "''__proto__'' \<notin> fst ` set (getHeaders H D)"
    using ks by (auto simp: keys_of_def)
  then show "map_of (getHeaders H D) ''__proto__'' = None"
    by (simp add: map_of_eq_None_iff)
qed

theorem getHeaders_redaction_witness:
  "getHeaders [(''Authorization'', ''Bearer x''), (''X-Test'', ''value'')] [''authorization'']
     = [(''authorization'', ''[REDACTED]''), (''x-test'', ''value'')] \<and>
   map_of (getHeaders [(''Authorization'', ''Bearer x''), (''X-Test'', ''value'')] [''authorization''])
     (toLowerCase ''X-Test'') = Some ''value'' \<and>
   keys_of (getHeaders [(''Authorization'', ''Bearer x''), (''X-Test'', ''value'')] [''authorization''])
     = toLowerCase ` keys_of [(''Authorization'', ''Bearer x''), (''X-Test'', ''value'')]
         - {''__proto__''}"
  using getHeaders_redaction
    [of "[(''Authorization'', ''Bearer x''), (''X-Test'', ''value'')]" "[''authorization'']"]
  by (simp add: getHeaders_def js_assign_def toLowerCase_def lower_char_def keys_of_def)

text \<open>
  Claim C3 as stated fails where two keys differ only in letter case: \<open>A\<close> is not
  redacted, yet its lower-cased form does not map to its value \<open>1\<close>. It fails as well
  for a key whose lower-cased form is \<open>__proto__\<close>: the result has no such key.
\<close>

theorem getHeaders_collision_counterexample:
  "distinct (map fst [(''A'', ''1''), (''a'', ''2'')]) \<and>
   (''A'', ''1'') \<in> set [(''A'', ''1''), (''a'', ''2'')] \<and>
   toLowerCase ''A'' \<notin> set [] \<and>
   getHeaders [(''A'', ''1''), (''a'', ''2'')] [] = [(''a'', ''2'')] \<and>
   map_of (getHeaders [(''A'', ''1''), (''a'', ''2'')] []) (toLowerCase ''A'') \<noteq> Some ''1'' \<and>
   getHeaders [(''__proto__'', ''x''), (''a'', ''1'')] [] = [(''a'', ''1'')] \<and>
   toLowerCase ''__proto__'' \<notin> keys_of (getHeaders [(''__proto__'', ''x''), (''a'', ''1'')] [])"
  by (simp add: getHeaders_def js_assign_def toLowerCase_def lower_char_def keys_of_def)

section \<open>The default level\<close>

text \<open>
  Claim C7, as the code has it. \<open>LOG_LEVEL\<close> overrides the default minimum level
  whenever it is set to a non-empty text, one of the six level names or not; unset or
  empty, the default is \<open>info\<close>. The default is the level \<open>createLogger\<close> hands to the
  backend when it is given no level option.
\<close>

theorem DEFAULT_LEVEL_override:
  "DEFAULT_LEVEL None = ''info'' \<and>
   DEFAULT_LEVEL (Some []) = ''info'' \<and>
   (s \<noteq> [] \<longrightarrow> DEFAULT_LEVEL (Some s) = s) \<and>
   (recognized_level s \<longrightarrow> DEFAULT_LEVEL (Some s) = s) \<and>
   lo_level (mergedOptions env String_of no_options) = Present (DEFAULT_LEVEL env)"
  by (auto simp: DEFAULT_LEVEL_def recognized_level_def LOG_LEVELS_def mergedOptions_def
      spread_logger_options_def defaultOptions_def no_options_def split: option.splits)

theorem DEFAULT_LEVEL_override_witness:
  "recognized_level ''debug'' \<and> DEFAULT_LEVEL (Some ''debug'') = ''debug'' \<and>
   DEFAULT_LEVEL (Some ''loud'') = ''loud''"
  using DEFAULT_LEVEL_override [of "''debug''"] DEFAULT_LEVEL_override [of "''loud''"]
  by (simp add: recognized_level_def LOG_LEVELS_def)

text \<open>
  Claim C7 as stated fails: a value that is none of the six level names overrides the
  default all the same.
\<close>

theorem DEFAULT_LEVEL_unrecognized_counterexample:
  "\<not> recognized_level ''verbose'' \<and>
   DEFAULT_LEVEL (Some ''verbose'') = ''verbose'' \<and>
   DEFAULT_LEVEL (Some ''verbose'') \<noteq> DEFAULT_LEVEL None"
  by (simp add: DEFAULT_LEVEL_def recognized_level_def LOG_LEVELS_def)

section \<open>Merged logger options\<close>

text \<open>
  Claim C9. The options \<open>createLogger\<close> hands to the backend take each key from the
  user's options when the key is supplied and from the defaults otherwise, one level
  deep: a supplied \<open>redact\<close> or \<open>serializers\<close> replaces the default whole, and a key
  that is not supplied keeps its full default.
\<close>

theorem createLogger_shallow_merge:
  "(let m = mergedOptions env String_of options; d = defaultOptions env String_of in
    lo_level m = (if supplied (lo_level options) then lo_level options else lo_level d) \<and>
    lo_redact m = (if supplied (lo_redact options) then lo_redact options else lo_redact d) \<and>
    lo_timestamp m = (if supplied (lo_timestamp options) then lo_timestamp options else lo_timestamp d) \<and>
    lo_formatters m = (if supplied (lo_formatters options) then lo_formatters options else lo_formatters d) \<and>
    lo_serializers m = (if supplied (lo_serializers options) then lo_serializers options else lo_serializers d) \<and>
    lo_base m = (if supplied (lo_base options) then lo_base options else lo_base d) \<and>
    lo_messageKey m = (if supplied (lo_messageKey options) then lo_messageKey options else lo_messageKey d) \<and>
    lo_errorKey m = (if supplied (lo_errorKey options) then lo_errorKey options else lo_errorKey d) \<and>
    (\<forall>r. lo_redact options = Present r \<longrightarrow> lo_redact m = Present r) \<and>
    (\<forall>z. lo_serializers options = Present z \<longrightarrow> lo_serializers m = Present z) \<and>
    (lo_redact options = Absent \<longrightarrow>
       lo_redact m = Present (RedactOptions
         \<lparr>paths = DEFAULT_REDACT_PATHS, remove = Present True, censor = Absent\<rparr>)) \<and>
    (lo_serializers options = Absent \<longrightarrow>
       lo_serializers m = Present [(''error'', errorSerializer String_of)]))"
  by (simp add: mergedOptions_def spread_logger_options_def spread_field_supplied Let_def
      defaultOptions_def)

theorem createLogger_shallow_merge_witness:
  "lo_redact (mergedOptions None (\<lambda>v. [])
      (no_options\<lparr>lo_redact :=
         Present (RedactOptions \<lparr>paths = [''x''], remove = Absent, censor = Absent\<rparr>)\<rparr>))
     = Present (RedactOptions \<lparr>paths = [''x''], remove = Absent, censor = Absent\<rparr>) \<and>
   lo_messageKey (mergedOptions None (\<lambda>v. [])
      (no_options\<lparr>lo_redact :=
         Present (RedactOptions \<lparr>paths = [''x''], remove = Absent, censor = Absent\<rparr>)\<rparr>))
     = Present ''msg'' \<and>
   lo_redact (mergedOptions None (\<lambda>v. []) no_options)
     = Present (RedactOptions
         \<lparr>paths = DEFAULT_REDACT_PATHS, remove = Present True, censor = Absent\<rparr>)"
  using createLogger_shallow_merge [of None "\<lambda>v. []"
      "no_options\<lparr>lo_redact :=
         Present (RedactOptions \<lparr>paths = [''x''], remove = Absent, censor = Absent\<rparr>)\<rparr>"]
    createLogger_shallow_merge [of None "\<lambda>v. []" no_options]
  by (simp add: Let_def no_options_def defaultOptions_def)

section \<open>Query parameters\<close>

text \<open>
  Claim C10, as the code has it. \<open>getQueryParams\<close> throws exactly when the platform's
  URL constructor rejects the text, with what the constructor throws; otherwise it
  returns a flat mapping with the keys of the query string other than \<open>__proto__\<close>, a
  key the assignment never stores, in which the last occurrence of a key gives its
  value.
\<close>

theorem getQueryParams_partial:
  "(\<forall>e. URL_entries url = Inl e \<longrightarrow> getQueryParams URL_entries url = Inl e) \<and>
   (\<forall>entries. URL_entries url = Inr entries \<longrightarrow>
      (\<exists>params. getQueryParams URL_entries url = Inr params \<and>
         distinct (map fst params) \<and>
         keys_of params = keys_of entries - {''__proto__''} \<and>
         (\<forall>es1 k v es2. entries = es1 @ (k, v) # es2 \<longrightarrow> k \<notin> keys_of es2 \<longrightarrow>
            k \<noteq> ''__proto__'' \<longrightarrow> map_of params k = Some v))) \<and>
   (isl (getQueryParams URL_entries url) \<longleftrightarrow> isl (URL_entries url))"
proof (intro conjI allI impI)
  show "getQueryParams URL_entries url = Inl e" if "URL_entries url = Inl e" for e
    using that by (simp add: getQueryParams_def)
  show "\<exists>params. getQueryParams URL_entries url = Inr params \<and>
         distinct (map fst params) \<and>
         keys_of params = keys_of entries - {''__proto__''} \<and>
         (\<forall>es1 k v es2. entries = es1 @ (k, v) # es2 \<longrightarrow> k \<notin> keys_of es2 \<longrightarrow>
            k \<noteq> ''__proto__'' \<longrightarrow> map_of params k = Some v)"
    if e: "URL_entries url = Inr entries" for entries
  proof (intro exI conjI allI impI)
    let ?ps = "fold (\<lambda>(key, v) params. js_assign key v params) entries []"
    show "getQueryParams URL_entries url = Inr ?ps"
      using e by (simp add: getQueryParams_def)
    show "distinct (map fst ?ps)"
      by (rule distinct_fold_js_assign)
    show "keys_of ?ps = keys_of entries - {''__proto__''}"
      by (rule keys_fold_js_assign)
    show "map_of ?ps k = Some v"
      if "entries = es1 @ (k, v) # es2" and n: "k \<notin> keys_of es2" and ne: "k \<noteq> ''__proto__''"
      for es1 k v es2
      unfolding map_of_fold_js_assign [OF ne] that(1) by (rule map_of_rev_last [OF n])
  qed
  show "isl (getQueryParams URL_entries url) \<longleftrightarrow> isl (URL_entries url)"
    by (simp add: getQueryParams_def split: sum.splits)
qed

theorem getQueryParams_partial_witness:
  "getQueryParams (\<lambda>u. if u = ''http://h/users?x=1&y=2&x=3''
                        then Inr [(''x'', ''1''), (''y'', ''2''), (''x'', ''3'')]
                        else Inl (TypeError ''Invalid URL''))
     ''/users?x=1'' = Inl (TypeError ''Invalid URL'') \<and>
   getQueryParams (\<lambda>u. if u = ''http://h/users?x=1&y=2&x=3''
                        then Inr [(''x'', ''1''), (''y'', ''2''), (''x'', ''3'')]
                        else Inl (TypeError ''Invalid URL''))
     ''http://h/users?x=1&y=2&x=3'' = Inr [(''x'', ''3''), (''y'', ''2'')]"
  using getQueryParams_partial
    [of "\<lambda>u. if u = ''http://h/users?x=1&y=2&x=3''
              then Inr [(''x'', ''1''), (''y'', ''2''), (''x'', ''3'')]
              else Inl (TypeError ''Invalid URL'')" "''/users?x=1''"]
    getQueryParams_partial
    [of "\<lambda>u. if u = ''http://h/users?x=1&y=2&x=3''
              then Inr [(''x'', ''1''), (''y'', ''2''), (''x'', ''3'')]
              else Inl (TypeError ''Invalid URL'')" "''http://h/users?x=1&y=2&x=3''"]
  by (simp add: getQueryParams_def js_assign_def)

text \<open>
  Claim C10 as stated fails for a query string with a parameter called \<open>__proto__\<close>:
  the URL parses, the parameter is among the pairs, and the mapping returned has no
  such key.
\<close>

theorem getQueryParams_proto_counterexample:
  "getQueryParams (\<lambda>u. if u = ''http://h/?__proto__=x&a=1''
                        then Inr [(''__proto__'', ''x''), (''a'', ''1'')]
                        else Inl (TypeError ''Invalid URL''))
     ''http://h/?__proto__=x&a=1'' = Inr [(''a'', ''1'')] \<and>
   ''__proto__'' \<in> keys_of [(''__proto__'', ''x''), (''a'', ''1'')] \<and>
   ''__proto__'' \<notin> keys_of [(''a'', ''1'')]"
  by (simp add: getQueryParams_def js_assign_def keys_of_def)

section \<open>Error serialization\<close>

lemma map_of_fold_cond_update:
  "map_of (fold (\<lambda>key s. if P key then AList.update key (g key) s else s) ks s0) k
     = (if k \<in> set ks \<and> P k then Some (g k) else map_of s0 k)"
  by (induction ks arbitrary: s0) (auto simp: update_conv')

lemma for_in_own:
  "(k \<in> set (for_in_keys E) \<and> hasOwnProperty E k) \<longleftrightarrow> own_enumerable E k"
  by (auto simp: for_in_keys_def hasOwnProperty_def own_enumerable_def image_iff) force

lemma own_enumerable_iff:
  "own_enumerable E k \<longleftrightarrow> (\<exists>v. (k, True, v) \<in> set (own_props E))"
  by (auto simp: own_enumerable_def image_iff)

lemma js_get_own:
  "wf_object E \<Longrightarrow> (k, en, v) \<in> set (own_props E) \<Longrightarrow> js_get E k = v"
  by (simp add: wf_object_def js_get_def)

lemma map_of_errorSerializer:
  assumes "isError E"
  shows "map_of (errorSerializer S E) k =
     (if own_enumerable E k \<and> k \<notin> {''name'', ''message'', ''stack'', ''__proto__''}
      then Some (js_get E k)
      else if k = ''type'' then Some (js_get E ''name'')
      else if k = ''message'' then Some (js_get E ''message'')
      else if k = ''stack'' \<and> js_truthy (js_get E ''stack'') then Some (js_get E ''stack'')
      else None)"
proof -
  have loop: "(\<lambda>key serialized.
                if hasOwnProperty E key \<and> key \<notin> set [''name'', ''message'', ''stack'']
                then js_assign key (js_get E key) serialized
                else serialized)
      = (\<lambda>key serialized.
           if hasOwnProperty E key \<and> key \<notin> {''name'', ''message'', ''stack'', ''__proto__''}
           then AList.update key (js_get E key) serialized
           else serialized)"
    by (auto simp: js_assign_def fun_eq_iff)
  have "(k \<in> set (for_in_keys E) \<and> hasOwnProperty E k \<and>
         k \<notin> {''name'', ''message'', ''stack'', ''__proto__''})
        \<longleftrightarrow> (own_enumerable E k \<and> k \<notin> {''name'', ''message'', ''stack'', ''__proto__''})"
    using for_in_own [of k E] by auto
  then show ?thesis
    using assms
    unfolding errorSerializer_def loop
    by (simp add: Let_def map_of_fold_cond_update update_conv' del: set_simps)
qed

lemma keys_of_dom: "keys_of r = dom (map_of r)"
  by (simp add: keys_of_def dom_map_of_conv_image_fst)

text \<open>
  Claim C4, as the code has it. For an error-like value \<open>E\<close>, \<open>errorSerializer\<close>
  returns a mapping that always has \<open>type\<close> and \<open>message\<close>; \<open>message\<close> is the error's
  message, and \<open>type\<close> is the error's name whenever \<open>E\<close> has no own enumerable field
  called \<open>type\<close>. It has \<open>stack\<close> exactly when the error's stack is truthy (for a text:
  non-empty), and every own enumerable field of \<open>E\<close> other than \<open>name\<close>, \<open>message\<close>,
  \<open>stack\<close> and \<open>__proto__\<close> (a key the assignment never stores), and no other key. For a
  value that is not error-like it returns exactly \<open>{error: String(value)}\<close>.
\<close>

theorem errorSerializer_fields:
  assumes "wf_object E"
  shows "(isError E \<longrightarrow>
            map_of (errorSerializer S E) ''message'' = Some (js_get E ''message'') \<and>
            ''type'' \<in> keys_of (errorSerializer S E) \<and>
            (\<not> own_enumerable E ''type'' \<longrightarrow>
               map_of (errorSerializer S E) ''type'' = Some (js_get E ''name'')) \<and>
            (''stack'' \<in> keys_of (errorSerializer S E) \<longleftrightarrow> js_truthy (js_get E ''stack'')) \<and>
            (\<forall>s. js_get E ''stack'' = JStr s \<longrightarrow>
               (''stack'' \<in> keys_of (errorSerializer S E) \<longleftrightarrow> s \<noteq> [])) \<and>
            (js_get E ''stack'' = JUndefined \<longrightarrow> ''stack'' \<notin> keys_of (errorSerializer S E)) \<and>
            (js_truthy (js_get E ''stack'') \<longrightarrow>
               map_of (errorSerializer S E) ''stack'' = Some (js_get E ''stack'')) \<and>
            (\<forall>k v. (k, True, v) \<in> set (own_props E) \<longrightarrow>
               k \<notin> {''name'', ''message'', ''stack'', ''__proto__''} \<longrightarrow>
               map_of (errorSerializer S E) k = Some v) \<and>
            keys_of (errorSerializer S E) =
              {''type'', ''message''} \<union> {k. k = ''stack'' \<and> js_truthy (js_get E ''stack'')} \<union>
              {k. own_enumerable E k \<and> k \<notin> {''name'', ''message'', ''stack'', ''__proto__''}}) \<and>
         (\<not> isError E \<longrightarrow> errorSerializer S E = [(''error'', JStr (S E))])"
proof (intro conjI impI allI)
  assume e: "isError E"
  note m = map_of_errorSerializer [OF e, of S]
  show "map_of (errorSerializer S E) ''message'' = Some (js_get E ''message'')"
    by (simp add: m)
  show "''type'' \<in> keys_of (errorSerializer S E)"
    by (simp add: keys_of_dom dom_def m)
  show "map_of (errorSerializer S E) ''type'' = Some (js_get E ''name'')"
    if "\<not> own_enumerable E ''type''"
    using that by (simp add: m)
  show st: "''stack'' \<in> keys_of (errorSerializer S E) \<longleftrightarrow> js_truthy (js_get E ''stack'')"
    by (simp add: keys_of_dom dom_def m)
  show "''stack'' \<in> keys_of (errorSerializer S E) \<longleftrightarrow> s \<noteq> []"
    if "js_get E ''stack'' = JStr s" for s
    using that by (simp add: st)
  show "''stack'' \<notin> keys_of (errorSerializer S E)" if "js_get E ''stack'' = JUndefined"
    using that by (simp add: st)
  show "map_of (errorSerializer S E) ''stack'' = Some (js_get E ''stack'')"
    if "js_truthy (js_get E ''stack'')"
    using that by (simp add: m)
  show "map_of (errorSerializer S E) k = Some v"
    if "(k, True, v) \<in> set (own_props E)"
      and "k \<notin> {''name'', ''message'', ''stack'', ''__proto__''}" for k v
  proof -
    have "own_enumerable E k" using that(1) by (auto simp: own_enumerable_iff)
    moreover have "js_get E k = v" using assms that(1) by (rule js_get_own)
    ultimately show ?thesis using that(2) by (simp add: m)
  qed
  show "keys_of (errorSerializer S E) =
          {''type'', ''message''} \<union> {k. k = ''stack'' \<and> js_truthy (js_get E ''stack'')} \<union>
          {k. own_enumerable E k \<and> k \<notin> {''name'', ''message'', ''stack'', ''__proto__''}}"
    unfolding keys_of_dom dom_def by (rule set_eqI) (simp add: m)
next
  assume "\<not> isError E"
  then show "errorSerializer S E = [(''error'', JStr (S E))]"
    by (simp add: errorSerializer_def)
qed

theorem errorSerializer_fields_witness:
  "errorSerializer (\<lambda>v. ''?'')
     (JObj True
        [(''stack'', False, JStr ''Error: boom at f''), (''message'', False, JStr ''boom''),
         (''code'', True, JStr ''CUSTOM_ERROR'')]
        [(''name'', False, JStr ''Error'')])
     = [(''type'', JStr ''Error''), (''message'', JStr ''boom''),
        (''stack'', JStr ''Error: boom at f''), (''code'', JStr ''CUSTOM_ERROR'')] \<and>
   isError (JObj False [(''message'', True, JStr ''x'')] []) \<and>
   \<not> isError (JObj False [] []) \<and>
   \<not> isError JNull \<and>
   errorSerializer (\<lambda>v. ''42'') (JNum 42) = [(''error'', JStr ''42'')]"
  using errorSerializer_fields [of "JNum 42" "\<lambda>v. ''42''"]
    errorSerializer_fields [of "JObj True
        [(''stack'', False, JStr ''Error: boom at f''), (''message'', False, JStr ''boom''),
         (''code'', True, JStr ''CUSTOM_ERROR'')]
        [(''name'', False, JStr ''Error'')]" "\<lambda>v. ''?''"]
  by (simp add: errorSerializer_def isError_def js_in_def js_get_def for_in_keys_def
      hasOwnProperty_def wf_object_def js_assign_def own_enumerable_def)

text \<open>
  Claim C4 as stated fails in two places. An own enumerable field called \<open>__proto__\<close>
  (as \<open>JSON.parse\<close> makes one) is an additional field and is not in the result. And for
  an error with a field of its own called \<open>type\<close>, the serialized \<open>type\<close> is that field,
  not the error's name.
\<close>

theorem errorSerializer_type_counterexample:
  "isError (JObj False [(''message'', True, JStr ''boom''), (''__proto__'', True, JStr ''x'')] []) \<and>
   own_enumerable
     (JObj False [(''message'', True, JStr ''boom''), (''__proto__'', True, JStr ''x'')] [])
     ''__proto__'' \<and>
   errorSerializer (\<lambda>v. ''?'')
     (JObj False [(''message'', True, JStr ''boom''), (''__proto__'', True, JStr ''x'')] [])
     = [(''type'', JUndefined), (''message'', JStr ''boom'')] \<and>
   isError (JObj True
        [(''message'', False, JStr ''boom''), (''type'', True, JStr ''system'')]
        [(''name'', False, JStr ''FetchError'')]) \<and>
   js_get (JObj True
        [(''message'', False, JStr ''boom''), (''type'', True, JStr ''system'')]
        [(''name'', False, JStr ''FetchError'')]) ''name'' = JStr ''FetchError'' \<and>
   map_of (errorSerializer (\<lambda>v. ''?'')
     (JObj True
        [(''message'', False, JStr ''boom''), (''type'', True, JStr ''system'')]
        [(''name'', False, JStr ''FetchError'')])) ''type'' = Some (JStr ''system'')"
  by (simp add: errorSerializer_def isError_def js_in_def js_get_def for_in_keys_def
      hasOwnProperty_def js_assign_def own_enumerable_def)

section \<open>Request identifiers\<close>

lemma decimal_small: "n < 10 \<Longrightarrow> decimal n = [digit_char n]"
  by (simp add: decimal.simps [of n])

lemma decimal_big: "\<not> n < 10 \<Longrightarrow> decimal n = decimal (n div 10) @ [digit_char (n mod 10)]"
  by (simp add: decimal.simps [of n])

lemma digit_char_props:
  "d < 10 \<Longrightarrow> is_digit (digit_char d) \<and> digit_val (digit_char d) = d"
proof -
  assume "d < 10"
  then have "d \<in> {0, 1, 2, 3, 4, 5, 6, 7, 8, 9}" by auto
  then show ?thesis
    by (auto simp: is_digit_def digit_val_def digit_char_def upt_conv_Cons)
qed

lemma decimal_val_snoc: "decimal_val (s @ [ch]) = 10 * decimal_val s + digit_val ch"
  by (simp add: decimal_val_def)

lemma decimal_props:
  "decimal n \<noteq> [] \<and> list_all is_digit (decimal n) \<and> decimal_val (decimal n) = n"
proof (induction n rule: decimal.induct)
  case (1 n)
  show ?case
  proof (cases "n < 10")
    case True
    then show ?thesis
      using digit_char_props [of n] by (simp add: decimal_small decimal_val_def)
  next
    case False
    have "n mod 10 < 10" by simp
    then show ?thesis
      using "1" [OF False] False digit_char_props [of "n mod 10"]
      by (simp add: decimal_big decimal_val_snoc)
  qed
qed

lemma substring_2_15: "substring s 2 15 = take 13 (drop 2 s)"
  by (auto simp: substring_def Let_def min_def max_def)

text \<open>
  Claim C8, as the code has it. Every identifier \<open>generateRequestId\<close> returns is
  \<open>req_\<close>, the decimal digits of the current time in milliseconds, \<open>_\<close>, and a suffix:
  the first 13 characters that follow \<open>0.\<close> in the base-36 text of the random number, so
  a string of at most 13 lowercase base-36 characters.
\<close>

theorem generateRequestId_format:
  assumes "radix36_fraction random36"
  shows "\<exists>suffix. generateRequestId now random36 = ''req_'' @ decimal now @ ''_'' @ suffix \<and>
           suffix = take 13 (drop 2 random36) \<and>
           length suffix \<le> 13 \<and>
           list_all is_base36 suffix \<and>
           decimal now \<noteq> [] \<and> list_all is_digit (decimal now) \<and>
           decimal_val (decimal now) = now"
proof -
  have "list_all is_base36 (drop 2 random36)"
    using assms by (auto simp: radix36_fraction_def)
  then have "list_all is_base36 (take 13 (drop 2 random36))"
    by (auto simp: list_all_iff dest: in_set_takeD)
  then show ?thesis
    by (simp add: generateRequestId_def substring_2_15 decimal_props)
qed

theorem generateRequestId_format_witness:
  "radix36_fraction ''0.4fzyo82mvyr'' \<and>
   generateRequestId 1730000000123 ''0.4fzyo82mvyr'' = ''req_1730000000123_4fzyo82mvyr''"
  using generateRequestId_format [of "''0.4fzyo82mvyr''" 1730000000123]
  by (simp add: radix36_fraction_def is_base36_def decimal_small decimal_big digit_char_def)

text \<open>
  Claim C8 as stated fails: the suffix is not padded, so a random number with a short
  base-36 text (\<open>0.5\<close> is \<open>0.i\<close>, \<open>0\<close> is \<open>0\<close>) gives a suffix of one character
  or none, not of about 10 to 13.
\<close>

theorem generateRequestId_short_counterexample:
  "radix36_fraction ''0.i'' \<and>
   generateRequestId 1730000000123 ''0.i'' = ''req_1730000000123_i'' \<and>
   substring ''0.i'' 2 15 = ''i'' \<and>
   \<not> 10 \<le> length (substring ''0.i'' 2 15) \<and>
   radix36_fraction ''0'' \<and>
   generateRequestId 1730000000123 ''0'' = ''req_1730000000123_''"
  by (simp add: generateRequestId_def substring_2_15 radix36_fraction_def is_base36_def
      decimal_small decimal_big digit_char_def)

section \<open>Bound fields of derived loggers\<close>

lemma withContext_eq:
  "withContext w L c =
     (\<lparr>lg_id = w_next_id w, lg_level = lg_level L,
       lg_bindings = AList.merge (lg_bindings L) c\<rparr>,
      w\<lparr>w_next_id := Suc (w_next_id w)\<rparr>)"
  by (simp add: withContext_def createContextLogger_def pino_child_def)

text \<open>
  Claim C5. \<open>withContext\<close> returns a handle with a new identity whose entries carry the
  fields of the given mapping on top of the parent's; the parent's entries are what they
  were and carry none of the new fields; done twice, the bound fields are the merge of
  both mappings with the second one's values winning where keys collide.
\<close>

theorem withContext_composition:
  assumes "withContext w L c1 = (L1, w1)" and "withContext w1 L1 c2 = (L2, w2)"
  shows "(logger_known w L \<longrightarrow> lg_id L1 \<noteq> lg_id L \<and> lg_id L2 \<noteq> lg_id L) \<and>
         lg_id L2 \<noteq> lg_id L1 \<and>
         logger_known w1 L1 \<and> logger_known w2 L2 \<and>
         w_calls w1 = w_calls w \<and> w_calls w2 = w_calls w \<and>
         (\<forall>lvl p m. w_calls (pino_log w1 L1 lvl p m) = w_calls w1 @
             [\<lparr>lc_logger = lg_id L1, lc_level = lvl, lc_bindings = lg_bindings L1,
               lc_payload = p, lc_msg = m\<rparr>]) \<and>
         (\<forall>k v. map_of c1 k = Some v \<longrightarrow> map_of (lg_bindings L1) k = Some v) \<and>
         (\<forall>k. k \<notin> keys_of c1 \<longrightarrow> map_of (lg_bindings L1) k = map_of (lg_bindings L) k) \<and>
         (\<forall>lvl p m. \<exists>e. w_calls (pino_log w L lvl p m) = w_calls w @ [e] \<and>
             w_calls (pino_log w1 L lvl p m) = w_calls w1 @ [e] \<and>
             w_calls (pino_log w2 L lvl p m) = w_calls w2 @ [e] \<and>
             lc_bindings e = lg_bindings L \<and>
             (\<forall>k \<in> keys_of c1. k \<notin> keys_of (lg_bindings L) \<longrightarrow> k \<notin> keys_of (lc_bindings e))) \<and>
         map_of (lg_bindings L2) = map_of (lg_bindings L) ++ map_of c1 ++ map_of c2 \<and>
         (\<forall>k v. map_of c2 k = Some v \<longrightarrow> map_of (lg_bindings L2) k = Some v) \<and>
         (\<forall>k v. map_of c1 k = Some v \<longrightarrow> k \<notin> keys_of c2 \<longrightarrow>
            map_of (lg_bindings L2) k = Some v)"
proof -
  from assms(1) have L1: "L1 = \<lparr>lg_id = w_next_id w, lg_level = lg_level L,
       lg_bindings = AList.merge (lg_bindings L) c1\<rparr>"
    and w1: "w1 = w\<lparr>w_next_id := Suc (w_next_id w)\<rparr>"
    by (simp_all add: withContext_eq)
  from assms(2) have L2: "L2 = \<lparr>lg_id = w_next_id w1, lg_level = lg_level L1,
       lg_bindings = AList.merge (lg_bindings L1) c2\<rparr>"
    and w2: "w2 = w1\<lparr>w_next_id := Suc (w_next_id w1)\<rparr>"
    by (simp_all add: withContext_eq)
  have b1: "map_of (lg_bindings L1) = map_of (lg_bindings L) ++ map_of c1"
    by (simp add: L1 merge_conv')
  have b2: "map_of (lg_bindings L2) = map_of (lg_bindings L) ++ map_of c1 ++ map_of c2"
    by (simp add: L2 b1 merge_conv')
  have none: "map_of c k = None" if "k \<notin> keys_of c" for k and c :: js_record
    using that by (simp add: keys_of_def map_of_eq_None_iff)
  show ?thesis
  proof (intro conjI allI impI)
    show "lg_id L1 \<noteq> lg_id L" if "logger_known w L"
      using that by (simp add: L1 logger_known_def)
    show "lg_id L2 \<noteq> lg_id L" if "logger_known w L"
      using that by (simp add: L2 w1 logger_known_def)
    show "lg_id L2 \<noteq> lg_id L1" by (simp add: L1 L2 w1)
    show "logger_known w1 L1" by (simp add: L1 w1 logger_known_def)
    show "logger_known w2 L2" by (simp add: L2 w2 logger_known_def)
    show "w_calls w1 = w_calls w" by (simp add: w1)
    show "w_calls w2 = w_calls w" by (simp add: w2 w1)
    show "w_calls (pino_log w1 L1 lvl p m) = w_calls w1 @
             [\<lparr>lc_logger = lg_id L1, lc_level = lvl, lc_bindings = lg_bindings L1,
               lc_payload = p, lc_msg = m\<rparr>]" for lvl p m
      by (simp add: pino_log_def)
    show "map_of (lg_bindings L1) k = Some v" if "map_of c1 k = Some v" for k v
      using that by (simp add: b1)
    show "map_of (lg_bindings L1) k = map_of (lg_bindings L) k" if "k \<notin> keys_of c1" for k
      using none [OF that] by (simp add: b1 map_add_def)
    show "\<exists>e. w_calls (pino_log w L lvl p m) = w_calls w @ [e] \<and>
             w_calls (pino_log w1 L lvl p m) = w_calls w1 @ [e] \<and>
             w_calls (pino_log w2 L lvl p m) = w_calls w2 @ [e] \<and>
             lc_bindings e = lg_bindings L \<and>
             (\<forall>k \<in> keys_of c1. k \<notin> keys_of (lg_bindings L) \<longrightarrow> k \<notin> keys_of (lc_bindings e))"
      for lvl p m
      by (rule exI [of _ "\<lparr>lc_logger = lg_id L, lc_level = lvl, lc_bindings = lg_bindings L,
               lc_payload = p, lc_msg = m\<rparr>"]) (simp add: pino_log_def)
    show "map_of (lg_bindings L2) = map_of (lg_bindings L) ++ map_of c1 ++ map_of c2"
      by (rule b2)
    show "map_of (lg_bindings L2) k = Some v" if "map_of c2 k = Some v" for k v
      using that by (simp add: b2)
    show "map_of (lg_bindings L2) k = Some v"
      if "map_of c1 k = Some v" and "k \<notin> keys_of c2" for k v
      using that(1) none [OF that(2)] by (simp add: b2 map_add_def)
  qed
qed

theorem withContext_composition_witness:
  "logger_known \<lparr>w_next_id = 1, w_calls = [], w_hrtime = 0, w_now = 0, w_random36 = ''0''\<rparr>
     \<lparr>lg_id = 0, lg_level = ''info'', lg_bindings = []\<rparr> \<and>
   fst (withContext \<lparr>w_next_id = 1, w_calls = [], w_hrtime = 0, w_now = 0, w_random36 = ''0''\<rparr>
     \<lparr>lg_id = 0, lg_level = ''info'', lg_bindings = []\<rparr>
     [(''userId'', JStr ''456''), (''a'', JNum 1)])
     = \<lparr>lg_id = 1, lg_level = ''info'', lg_bindings = [(''a'', JNum 1), (''userId'', JStr ''456'')]\<rparr> \<and>
   fst (withContext \<lparr>w_next_id = 2, w_calls = [], w_hrtime = 0, w_now = 0, w_random36 = ''0''\<rparr>
     \<lparr>lg_id = 1, lg_level = ''info'', lg_bindings = [(''a'', JNum 1), (''userId'', JStr ''456'')]\<rparr>
     [(''a'', JNum 2)])
     = \<lparr>lg_id = 2, lg_level = ''info'', lg_bindings = [(''a'', JNum 2), (''userId'', JStr ''456'')]\<rparr>"
  using withContext_composition
    [of "\<lparr>w_next_id = 1, w_calls = [], w_hrtime = 0, w_now = 0, w_random36 = ''0''\<rparr>"
        "\<lparr>lg_id = 0, lg_level = ''info'', lg_bindings = []\<rparr>"
        "[(''userId'', JStr ''456''), (''a'', JNum 1)]"
        "\<lparr>lg_id = 1, lg_level = ''info'', lg_bindings = [(''a'', JNum 1), (''userId'', JStr ''456'')]\<rparr>"
        "\<lparr>w_next_id = 2, w_calls = [], w_hrtime = 0, w_now = 0, w_random36 = ''0''\<rparr>"
        "[(''a'', JNum 2)]"
        "\<lparr>lg_id = 2, lg_level = ''info'', lg_bindings = [(''a'', JNum 2), (''userId'', JStr ''456'')]\<rparr>"
        "\<lparr>w_next_id = 3, w_calls = [], w_hrtime = 0, w_now = 0, w_random36 = ''0''\<rparr>"]
  by (simp add: withContext_eq logger_known_def AList.merge_def)

section \<open>The request handler\<close>

lemma withRequestContext_world:
  "snd (withRequestContext w lg r) = w\<lparr>w_next_id := Suc (w_next_id w)\<rparr>"
  by (simp add: withRequestContext_def createContextLogger_def pino_child_def Let_def)

lemma request_logContext_wellformed:
  assumes "request_wellformed URL_entries config c"
  shows "\<exists>logContext. request_logContext URL_entries config c = Inr logContext"
proof (cases "bool_truthy (ho_includeQueryParams config)")
  case True
  with assms obtain es where "URL_entries (req_url c) = Inr es"
    by (cases "URL_entries (req_url c)") (auto simp: request_wellformed_def)
  then show ?thesis
    by (simp add: request_logContext_def getQueryParams_def Let_def)
next
  case False
  then show ?thesis
    by (simp add: request_logContext_def Let_def)
qed

lemma handle_request_run:
  assumes lc: "request_logContext URL_entries config c = Inr logContext"
    and rl: "rl = fst (withRequestContext w lg None)"
    and d: "d = next (c\<lparr>var_logger := Some rl\<rparr>)"
    and inc: "incoming = \<lparr>lc_logger = lg_id rl, lc_level = ''info'', lc_bindings = lg_bindings rl,
        lc_payload = (case ho_formatRequest config of Present f \<Rightarrow> f c | _ \<Rightarrow> logContext),
        lc_msg = ''Incoming request''\<rparr>"
    and c2: "c2 = c\<lparr>var_logger := Some rl, res_status := d_status d\<rparr>"
    and w3: "w3 = w\<lparr>w_next_id := Suc (w_next_id w),
        w_calls := w_calls w @ [incoming] @ d_calls d,
        w_hrtime := w_hrtime w + int (d_elapsed d)\<rparr>"
  shows "handle_request URL_entries config lg c next w =
     (case d_throws d of
        None \<Rightarrow> (Inr (), c2, on_completed config rl (w_hrtime w) c2 w3)
      | Some err \<Rightarrow> (Inl err, on_failed config rl (w_hrtime w) err c2 w3))"
proof -
  obtain rl' w1 where p: "withRequestContext w lg None = (rl', w1)"
    by (cases "withRequestContext w lg None")
  have rl': "rl' = rl" using p rl by simp
  have w1: "w1 = w\<lparr>w_next_id := Suc (w_next_id w)\<rparr>"
    using withRequestContext_world [of w lg None] p by simp
  have aw: "await_next d (c\<lparr>var_logger := Some rl\<rparr>)
      (pino_log (w\<lparr>w_next_id := Suc (w_next_id w)\<rparr>) rl ''info''
         (case ho_formatRequest config of Present f \<Rightarrow> f c | _ \<Rightarrow> logContext)
         ''Incoming request'') = (c2, w3)"
    by (simp add: await_next_def pino_log_def c2 w3 inc)
  show ?thesis
    unfolding handle_request_def p rl' lc
    by (simp add: Let_def d [symmetric] aw w1 split: option.splits prod.splits)
qed

lemmas example_defs =
  example_URL_entries_def example_request_def example_logger_def example_world_def
  example_next_ok_def example_next_throws_def example_config_def example_config_slow_def

lemmas run_defs =
  handle_request_def withRequestContext_def createContextLogger_def pino_child_def
  request_logContext_def request_headers_def getQueryParams_def middleware_config_def
  getHeaders_def Object_fromEntries_def Object_assign_def js_assign_def toLowerCase_def
  lower_char_def record_value_def
  spread_hono_options_def hono_defaultOptions_def hono_no_options_def pino_log_def
  await_next_def on_completed_def on_failed_def slow_threshold_def formatDuration_def
  status_value_def status_unset_or_below_400_def request_wellformed_def Let_def

lemma run_collapse: "x = (fst x, fst (snd x), snd (snd x))"
  by simp

text \<open>
  Claim C1. For every request of the framework (its URL is absolute, so the platform
  parses it where the handler asks), the calls the handler makes on the request logger
  are one \<open>info\<close> call \<open>Incoming request\<close> before the downstream handler's own calls,
  then at most a slow-request warning, then exactly one terminal call: \<open>info\<close>
  \<open>Request completed\<close> when the downstream returns, \<open>error\<close> \<open>Request failed\<close> when
  it throws.
\<close>

theorem handle_request_entries:
  assumes wf: "request_wellformed URL_entries config c"
    and run: "handle_request URL_entries config lg c next w = (res, c', w')"
    and rl: "rl = fst (withRequestContext w lg None)"
    and d: "d = next (c\<lparr>var_logger := Some rl\<rparr>)"
  shows "\<exists>incoming slow terminal.
           w_calls w' = w_calls w @ [incoming] @ d_calls d @ slow @ [terminal] \<and>
           lc_level incoming = ''info'' \<and> lc_msg incoming = ''Incoming request'' \<and>
           length slow \<le> 1 \<and>
           (\<forall>e \<in> set slow. lc_level e = ''warn'' \<and> lc_msg e = ''Slow request detected'') \<and>
           (d_throws d = None \<longrightarrow>
              res = Inr () \<and> lc_level terminal = ''info'' \<and> lc_msg terminal = ''Request completed'') \<and>
           (\<forall>err. d_throws d = Some err \<longrightarrow>
              res = Inl err \<and> slow = [] \<and>
              lc_level terminal = ''error'' \<and> lc_msg terminal = ''Request failed'') \<and>
           length (filter (\<lambda>e. lc_msg e = ''Incoming request'') ([incoming] @ slow @ [terminal])) = 1 \<and>
           length (filter terminal_call ([incoming] @ slow @ [terminal])) = 1"
proof -
  from request_logContext_wellformed [OF wf] obtain logContext
    where lc: "request_logContext URL_entries config c = Inr logContext" by blast
  define incoming where "incoming = \<lparr>lc_logger = lg_id rl, lc_level = ''info'',
      lc_bindings = lg_bindings rl,
      lc_payload = (case ho_formatRequest config of Present f \<Rightarrow> f c | _ \<Rightarrow> logContext),
      lc_msg = ''Incoming request''\<rparr>"
  define c2 where "c2 = c\<lparr>var_logger := Some rl, res_status := d_status d\<rparr>"
  define w3 where "w3 = w\<lparr>w_next_id := Suc (w_next_id w),
      w_calls := w_calls w @ [incoming] @ d_calls d,
      w_hrtime := w_hrtime w + int (d_elapsed d)\<rparr>"
  have r: "handle_request URL_entries config lg c next w =
     (case d_throws d of
        None \<Rightarrow> (Inr (), c2, on_completed config rl (w_hrtime w) c2 w3)
      | Some err \<Rightarrow> (Inl err, on_failed config rl (w_hrtime w) err c2 w3))"
    by (rule handle_request_run) (fact lc rl d incoming_def c2_def w3_def)+
  show ?thesis
  proof (cases "d_throws d")
    case None
    define slow where "slow = drop (length (w_calls w3)) (butlast (w_calls w'))"
    define terminal where "terminal = last (w_calls w')"
    have "(res, c', w') = (Inr (), c2, on_completed config rl (w_hrtime w) c2 w3)"
      unfolding run [symmetric] r None by simp
    then have w': "w' = on_completed config rl (w_hrtime w) c2 w3" and res: "res = Inr ()"
      by blast+
    have calls: "w_calls w' = w_calls w3 @ slow @ [terminal]"
      and slow: "length slow \<le> 1"
        "\<forall>e \<in> set slow. lc_level e = ''warn'' \<and> lc_msg e = ''Slow request detected''"
      and tm: "lc_level terminal = ''info''" "lc_msg terminal = ''Request completed''"
      by (simp_all add: slow_def terminal_def w' on_completed_def pino_log_def Let_def butlast_append)
    have "w_calls w' = w_calls w @ [incoming] @ d_calls d @ slow @ [terminal]"
      using calls by (simp add: w3_def)
    moreover have "length (filter (\<lambda>e. lc_msg e = ''Incoming request'') ([incoming] @ slow @ [terminal])) = 1"
      using slow tm by (cases slow) (auto simp: incoming_def)
    moreover have "length (filter terminal_call ([incoming] @ slow @ [terminal])) = 1"
      using slow tm by (cases slow) (auto simp: incoming_def terminal_call_def)
    ultimately show ?thesis
      using None res slow tm by (intro exI [of _ incoming] exI [of _ slow] exI [of _ terminal])
        (simp add: incoming_def)
  next
    case (Some err)
    define terminal where "terminal = last (w_calls w')"
    have "(res, c', w') = (Inl err, on_failed config rl (w_hrtime w) err c2 w3)"
      unfolding run [symmetric] r Some by simp
    then have w': "w' = snd (on_failed config rl (w_hrtime w) err c2 w3)" and res: "res = Inl err"
      by (metis snd_conv, metis fst_conv)
    have calls: "w_calls w' = w_calls w3 @ [terminal]"
      and tm: "lc_level terminal = ''error''" "lc_msg terminal = ''Request failed''"
      by (simp_all add: terminal_def w' on_failed_def pino_log_def Let_def)
    have "w_calls w' = w_calls w @ [incoming] @ d_calls d @ [] @ [terminal]"
      using calls by (simp add: w3_def)
    moreover have "length (filter (\<lambda>e. lc_msg e = ''Incoming request'') ([incoming] @ [] @ [terminal])) = 1"
      using tm by (simp add: incoming_def)
    moreover have "length (filter terminal_call ([incoming] @ [] @ [terminal])) = 1"
      using tm by (simp add: incoming_def terminal_call_def)
    ultimately show ?thesis
      using Some res tm by (intro exI [of _ incoming] exI [of _ "[]"] exI [of _ terminal])
        (simp add: incoming_def)
  qed
qed

theorem handle_request_entries_witness:
  "request_wellformed example_URL_entries example_config example_request \<and>
   map (\<lambda>e. (lc_level e, lc_msg e))
     (w_calls (snd (snd (handle_request example_URL_entries example_config
        example_logger example_request example_next_ok example_world))))
     = [(''info'', ''Incoming request''), (''info'', ''Request completed'')] \<and>
   map (\<lambda>e. (lc_level e, lc_msg e))
     (w_calls (snd (snd (handle_request example_URL_entries example_config
        example_logger example_request example_next_throws example_world))))
     = [(''info'', ''Incoming request''), (''error'', ''Request failed'')]"
  using handle_request_entries
    [of example_URL_entries example_config example_request example_logger
       example_next_ok example_world, OF _ run_collapse refl refl]
  by (simp add: example_defs run_defs)

lemma handle_request_failed_run:
  assumes wf: "request_wellformed URL_entries config c"
    and run: "handle_request URL_entries config lg c next w = (res, c', w')"
    and rl: "rl = fst (withRequestContext w lg None)"
    and d: "d = next (c\<lparr>var_logger := Some rl\<rparr>)"
    and thrown: "d_throws d = Some err"
  shows "res = Inl err \<and>
         res_status c' = d_status d \<and>
         ctx_status c' =
           (if status_unset_or_below_400 (d_status d) then Some 500 else ctx_status c) \<and>
         (\<exists>incoming failed.
            w_calls w' = w_calls w @ [incoming] @ d_calls d @ [failed] \<and>
            lc_level incoming = ''info'' \<and>
            lc_logger failed = lg_id rl \<and>
            lc_level failed = ''error'' \<and> lc_msg failed = ''Request failed'' \<and>
            lc_payload failed =
              (case ho_formatError config of
                 Present f \<Rightarrow> f err c'
               | _ \<Rightarrow> [(''err'', err), (''duration'', JNum (of_nat (d_elapsed d) / 1000000)),
                       (''status'', status_value (d_status d)),
                       (''method'', JStr (req_method c)), (''path'', JStr (req_path c))]) \<and>
            length (filter (\<lambda>e. lc_level e = ''error'') [incoming, failed]) = 1)"
proof -
  from request_logContext_wellformed [OF wf] obtain logContext
    where lc: "request_logContext URL_entries config c = Inr logContext" by blast
  define incoming where "incoming = \<lparr>lc_logger = lg_id rl, lc_level = ''info'',
      lc_bindings = lg_bindings rl,
      lc_payload = (case ho_formatRequest config of Present f \<Rightarrow> f c | _ \<Rightarrow> logContext),
      lc_msg = ''Incoming request''\<rparr>"
  define c2 where "c2 = c\<lparr>var_logger := Some rl, res_status := d_status d\<rparr>"
  define w3 where "w3 = w\<lparr>w_next_id := Suc (w_next_id w),
      w_calls := w_calls w @ [incoming] @ d_calls d,
      w_hrtime := w_hrtime w + int (d_elapsed d)\<rparr>"
  have r: "handle_request URL_entries config lg c next w =
     (case d_throws d of
        None \<Rightarrow> (Inr (), c2, on_completed config rl (w_hrtime w) c2 w3)
      | Some err \<Rightarrow> (Inl err, on_failed config rl (w_hrtime w) err c2 w3))"
    by (rule handle_request_run) (fact lc rl d incoming_def c2_def w3_def)+
  have "(res, c', w') = (Inl err, on_failed config rl (w_hrtime w) err c2 w3)"
    unfolding run [symmetric] r thrown by simp
  then have res: "res = Inl err"
    and f: "on_failed config rl (w_hrtime w) err c2 w3 = (c', w')"
    by simp_all
  have dur: "formatDuration (w_hrtime w) w3 = of_nat (d_elapsed d) / 1000000"
    by (simp add: w3_def formatDuration_def)
  define c3 where
    "c3 = (if status_unset_or_below_400 (res_status c2) then c2\<lparr>ctx_status := Some 500\<rparr> else c2)"
  have st: "res_status c3 = d_status d"
    by (simp add: c3_def c2_def)
  have cs: "ctx_status c3 =
      (if status_unset_or_below_400 (d_status d) then Some 500 else ctx_status c)"
    by (simp add: c3_def c2_def)
  have rq: "req_method c3 = req_method c" "req_path c3 = req_path c"
    by (simp_all add: c3_def c2_def)
  define failed where "failed = \<lparr>lc_logger = lg_id rl, lc_level = ''error'',
      lc_bindings = lg_bindings rl,
      lc_payload =
        (case ho_formatError config of
           Present f \<Rightarrow> f err c3
         | _ \<Rightarrow> [(''err'', err), (''duration'', JNum (of_nat (d_elapsed d) / 1000000)),
                 (''status'', status_value (res_status c3)),
                 (''method'', JStr (req_method c3)), (''path'', JStr (req_path c3))]),
      lc_msg = ''Request failed''\<rparr>"
  have "on_failed config rl (w_hrtime w) err c2 w3 = (c3, w3\<lparr>w_calls := w_calls w3 @ [failed]\<rparr>)"
    by (simp add: on_failed_def Let_def dur c3_def [symmetric] pino_log_def failed_def)
  with f have c': "c' = c3" and w': "w' = w3\<lparr>w_calls := w_calls w3 @ [failed]\<rparr>"
    by simp_all
  have calls: "w_calls w' = w_calls w @ [incoming] @ d_calls d @ [failed]"
    by (simp add: w' w3_def)
  show ?thesis
    unfolding c'
  proof (intro conjI)
    show "\<exists>incoming failed.
       w_calls w' = w_calls w @ [incoming] @ d_calls d @ [failed] \<and>
       lc_level incoming = ''info'' \<and>
       lc_logger failed = lg_id rl \<and>
       lc_level failed = ''error'' \<and> lc_msg failed = ''Request failed'' \<and>
       lc_payload failed =
         (case ho_formatError config of
            Present f \<Rightarrow> f err c3
          | _ \<Rightarrow> [(''err'', err), (''duration'', JNum (of_nat (d_elapsed d) / 1000000)),
                  (''status'', status_value (d_status d)),
                  (''method'', JStr (req_method c)), (''path'', JStr (req_path c))]) \<and>
       length (filter (\<lambda>e. lc_level e = ''error'') [incoming, failed]) = 1"
      using calls
      by (intro exI [of _ incoming] exI [of _ failed])
        (simp add: incoming_def failed_def rq st split: field.splits)
  qed (fact res st cs)+
qed

text \<open>
  Claim C2, at the request of the repository's test \<open>logs errors when request fails\<close>:
  the downstream throws while the response the context holds has status 200. The
  handler throws the same value again, makes exactly one \<open>error\<close> call and calls
  \<open>c.status(500)\<close>; but the status it then reads for the payload is \<open>c.res.status\<close>,
  which that call leaves at 200. The response status is not forced and the payload
  carries 200, where the claim and the test expect 500.
\<close>

theorem handle_request_failed_status:
  "fst (handle_request example_URL_entries example_config
        example_logger example_request example_next_throws example_world) = Inl example_error \<and>
   ctx_status (fst (snd (handle_request example_URL_entries example_config
        example_logger example_request example_next_throws example_world))) = Some 500 \<and>
   res_status (fst (snd (handle_request example_URL_entries example_config
        example_logger example_request example_next_throws example_world))) = Some 200 \<and>
   map (\<lambda>e. (lc_level e, lc_msg e, lc_payload e))
     (drop 1 (w_calls (snd (snd (handle_request example_URL_entries example_config
        example_logger example_request example_next_throws example_world)))))
     = [(''error'', ''Request failed'',
         [(''err'', example_error), (''duration'', JNum 2), (''status'', JNum 200),
          (''method'', JStr ''GET''), (''path'', JStr ''/users'')])]"
  by (simp add: example_defs run_defs)

text \<open>
  Claim C6. When the downstream returns, the handler makes one \<open>warn\<close> call
  \<open>Slow request detected\<close> with the duration and the threshold exactly when the elapsed
  milliseconds exceed the threshold (1000 unless configured), and the \<open>info\<close> call
  \<open>Request completed\<close> in either case.
\<close>

theorem handle_request_slow:
  assumes wf: "request_wellformed URL_entries config c"
    and run: "handle_request URL_entries config lg c next w = (res, c', w')"
    and rl: "rl = fst (withRequestContext w lg None)"
    and d: "d = next (c\<lparr>var_logger := Some rl\<rparr>)"
    and returned: "d_throws d = None"
    and duration: "duration = of_nat (d_elapsed d) / 1000000"
    and threshold: "threshold = slow_threshold config"
  shows "(\<exists>incoming completed.
            w_calls w' = w_calls w @ [incoming] @ d_calls d @
              (if duration > threshold
               then [\<lparr>lc_logger = lg_id rl, lc_level = ''warn'', lc_bindings = lg_bindings rl,
                      lc_payload = [(''duration'', JNum duration), (''threshold'', JNum threshold)],
                      lc_msg = ''Slow request detected''\<rparr>]
               else []) @ [completed] \<and>
            lc_level incoming = ''info'' \<and> lc_msg incoming = ''Incoming request'' \<and>
            lc_logger completed = lg_id rl \<and>
            lc_level completed = ''info'' \<and> lc_msg completed = ''Request completed'' \<and>
            lc_payload completed =
              (case ho_formatResponse config of
                 Present f \<Rightarrow> f c'
               | _ \<Rightarrow> [(''status'', status_value (d_status d)), (''duration'', JNum duration)])) \<and>
         threshold =
           (case ho_slowRequestThreshold config of Present t \<Rightarrow> t | _ \<Rightarrow> 1000) \<and>
         slow_threshold (middleware_config options) =
           (case ho_slowRequestThreshold options of Present t \<Rightarrow> t | _ \<Rightarrow> 1000)"
proof -
  from request_logContext_wellformed [OF wf] obtain logContext
    where lc: "request_logContext URL_entries config c = Inr logContext" by blast
  define incoming where "incoming = \<lparr>lc_logger = lg_id rl, lc_level = ''info'',
      lc_bindings = lg_bindings rl,
      lc_payload = (case ho_formatRequest config of Present f \<Rightarrow> f c | _ \<Rightarrow> logContext),
      lc_msg = ''Incoming request''\<rparr>"
  define c2 where "c2 = c\<lparr>var_logger := Some rl, res_status := d_status d\<rparr>"
  define w3 where "w3 = w\<lparr>w_next_id := Suc (w_next_id w),
      w_calls := w_calls w @ [incoming] @ d_calls d,
      w_hrtime := w_hrtime w + int (d_elapsed d)\<rparr>"
  have r: "handle_request URL_entries config lg c next w =
     (case d_throws d of
        None \<Rightarrow> (Inr (), c2, on_completed config rl (w_hrtime w) c2 w3)
      | Some err \<Rightarrow> (Inl err, on_failed config rl (w_hrtime w) err c2 w3))"
    by (rule handle_request_run) (fact lc rl d incoming_def c2_def w3_def)+
  have "(res, c', w') = (Inr (), c2, on_completed config rl (w_hrtime w) c2 w3)"
    unfolding run [symmetric] r returned by simp
  then have c': "c' = c2" and w': "w' = on_completed config rl (w_hrtime w) c2 w3"
    by simp_all
  have dur: "formatDuration (w_hrtime w) w3 = duration"
    by (simp add: w3_def formatDuration_def duration)
  define completed where "completed = \<lparr>lc_logger = lg_id rl, lc_level = ''info'',
      lc_bindings = lg_bindings rl,
      lc_payload =
        (case ho_formatResponse config of
           Present f \<Rightarrow> f c2
         | _ \<Rightarrow> [(''status'', status_value (d_status d)), (''duration'', JNum duration)]),
      lc_msg = ''Request completed''\<rparr>"
  have st2: "res_status c2 = d_status d" by (simp add: c2_def)
  have oc: "on_completed config rl (w_hrtime w) c2 w3 =
      pino_log
        (if duration > threshold
         then pino_log w3 rl ''warn''
                [(''duration'', JNum duration), (''threshold'', JNum threshold)]
                ''Slow request detected''
         else w3)
        rl ''info''
        (case ho_formatResponse config of
           Present f \<Rightarrow> f c2
         | _ \<Rightarrow> [(''status'', status_value (d_status d)), (''duration'', JNum duration)])
        ''Request completed''"
    by (simp add: on_completed_def Let_def dur threshold [symmetric] st2)
  have calls: "w_calls w' = w_calls w @ [incoming] @ d_calls d @
      (if duration > threshold
       then [\<lparr>lc_logger = lg_id rl, lc_level = ''warn'', lc_bindings = lg_bindings rl,
              lc_payload = [(''duration'', JNum duration), (''threshold'', JNum threshold)],
              lc_msg = ''Slow request detected''\<rparr>]
       else []) @ [completed]"
    unfolding w' oc by (simp add: pino_log_def completed_def w3_def)
  have t1: "threshold = (case ho_slowRequestThreshold config of Present t \<Rightarrow> t | _ \<Rightarrow> 1000)"
    by (simp add: threshold slow_threshold_def hono_defaultOptions_def hono_no_options_def
        split: field.splits)
  have t2: "slow_threshold (middleware_config options) =
           (case ho_slowRequestThreshold options of Present t \<Rightarrow> t | _ \<Rightarrow> 1000)"
    by (simp add: slow_threshold_def middleware_config_def spread_hono_options_def
        hono_defaultOptions_def hono_no_options_def split: field.splits)
  show ?thesis
  proof (intro conjI)
    show "\<exists>incoming completed.
            w_calls w' = w_calls w @ [incoming] @ d_calls d @
              (if duration > threshold
               then [\<lparr>lc_logger = lg_id rl, lc_level = ''warn'', lc_bindings = lg_bindings rl,
                      lc_payload = [(''duration'', JNum duration), (''threshold'', JNum threshold)],
                      lc_msg = ''Slow request detected''\<rparr>]
               else []) @ [completed] \<and>
            lc_level incoming = ''info'' \<and> lc_msg incoming = ''Incoming request'' \<and>
            lc_logger completed = lg_id rl \<and>
            lc_level completed = ''info'' \<and> lc_msg completed = ''Request completed'' \<and>
            lc_payload completed =
              (case ho_formatResponse config of
                 Present f \<Rightarrow> f c'
               | _ \<Rightarrow> [(''status'', status_value (d_status d)), (''duration'', JNum duration)])"
      using calls
      by (intro exI [of _ incoming] exI [of _ completed])
        (simp add: incoming_def completed_def c' split: field.splits)
  qed (fact t1 t2)+
qed

theorem handle_request_slow_witness:
  "request_wellformed example_URL_entries example_config_slow example_request \<and>
   d_throws (example_next_ok
     (example_request\<lparr>var_logger := Some (fst (withRequestContext example_world example_logger None))\<rparr>))
     = None \<and>
   map (\<lambda>e. (lc_level e, lc_msg e, lc_payload e))
     (drop 1 (w_calls (snd (snd (handle_request example_URL_entries example_config_slow
        example_logger example_request example_next_ok example_world)))))
     = [(''warn'', ''Slow request detected'', [(''duration'', JNum 10), (''threshold'', JNum 1)]),
        (''info'', ''Request completed'', [(''status'', JNum 200), (''duration'', JNum 10)])] \<and>
   map (\<lambda>e. (lc_level e, lc_msg e))
     (w_calls (snd (snd (handle_request example_URL_entries example_config
        example_logger example_request example_next_ok example_world))))
     = [(''info'', ''Incoming request''), (''info'', ''Request completed'')]"
  using handle_request_slow
    [of example_URL_entries example_config_slow example_request example_logger
       example_next_ok example_world, OF _ run_collapse refl refl _ refl refl]
  by (simp add: example_defs run_defs)

end
